theory Spec2Isabelle
  imports Complex_Main "HOL-Library.Word"
begin

section \<open>linux-whispr: audio capture, voice-activity detection and the dictation controller\<close>

text \<open>
  A shallow embedding of \<^verbatim>\<open>linux_whispr/audio/vad.py\<close>, \<^verbatim>\<open>linux_whispr/audio/capture.py\<close>
  and the recording part of \<^verbatim>\<open>linux_whispr/app.py\<close>.

  Conventions.
  \<^item> Mutable objects are records that every operation takes and returns.
  \<^item> A Python exception is the \<open>Inl\<close> of a sum; an operation that can raise returns the
    object as the exception left it, next to the result.
  \<^item> \<^verbatim>\<open>time.monotonic()\<close> is a parameter \<open>now\<close> of every operation that reads the clock.
    Clock values, probabilities and tensors are Python floats; they are modelled by \<open>real\<close>,
    which keeps the comparisons and subtractions of the source but not float rounding.
  \<^item> What an operation does to the outside (event-bus emissions, sounddevice calls, threads
    it starts) is returned as a list of effects, in program order.
\<close>

subsection \<open>Constants (\<^verbatim>\<open>constants.py\<close>)\<close>

definition AUDIO_SAMPLE_RATE :: int where "AUDIO_SAMPLE_RATE = 16000"
definition AUDIO_CHANNELS :: nat where "AUDIO_CHANNELS = 1"
definition AUDIO_BLOCKSIZE :: nat where "AUDIO_BLOCKSIZE = 1024"
definition VAD_THRESHOLD :: real where "VAD_THRESHOLD = 0.5"
definition VAD_SILENCE_DURATION :: real where "VAD_SILENCE_DURATION = 2.0"
definition VAD_MIN_SPEECH_DURATION :: real where "VAD_MIN_SPEECH_DURATION = 0.3"
definition MAX_RECORDING_DURATION :: real where "MAX_RECORDING_DURATION = 360"
definition VAD_CHUNK_SAMPLES :: nat where "VAD_CHUNK_SAMPLES = 512"

subsection \<open>Exceptions\<close>

datatype error =
    VAD_model_not_loaded  \<comment> \<open>\<^verbatim>\<open>RuntimeError("VAD model not loaded. Call load() first.")\<close>\<close>
  | AttributeError        \<comment> \<open>reading \<^verbatim>\<open>self._h\<close> or \<^verbatim>\<open>self._c\<close> before \<^verbatim>\<open>reset()\<close> created it\<close>
  | ModelUnavailable      \<comment> \<open>the download or \<^verbatim>\<open>ort.InferenceSession\<close> raised in \<^verbatim>\<open>load()\<close>\<close>
  | PortAudioError        \<comment> \<open>\<^verbatim>\<open>sd.InputStream(...)\<close> or its \<^verbatim>\<open>start()\<close> raised\<close>
  | STT_error             \<comment> \<open>the speech-to-text backend raised\<close>
  | struct_error          \<comment> \<open>\<^verbatim>\<open>struct.pack\<close>: value out of range of the format\<close>
  | wave_Error            \<comment> \<open>\<^verbatim>\<open>wave.Error\<close>\<close>
  | EOFError
  | RuntimeError

subsection \<open>Voice-activity detection (\<^verbatim>\<open>audio/vad.py\<close>)\<close>

type_synonym sample = "16 word"  \<comment> \<open>one int16 sample\<close>
type_synonym tensor = "real list"  \<comment> \<open>a float32 array, flattened\<close>

text \<open>
  The ONNX inference session is the pluggable scoring function. \<open>input_names\<close> is what
  \<^verbatim>\<open>get_inputs()\<close> lists; \<open>run_state\<close> is \<^verbatim>\<open>run\<close> on the inputs \<^verbatim>\<open>input, state, sr\<close>
  (outputs: probability, new state) and \<open>run_legacy\<close> on \<^verbatim>\<open>input, h, c, sr\<close>
  (outputs: probability, new h, new c).
\<close>

record ort_session =
  input_names :: "string list"
  run_state :: "real list \<Rightarrow> tensor \<Rightarrow> int \<Rightarrow> real \<times> tensor"
  run_legacy :: "real list \<Rightarrow> tensor \<Rightarrow> tensor \<Rightarrow> int \<Rightarrow> real \<times> tensor \<times> tensor"

text \<open>
  The attributes of \<^verbatim>\<open>SileroVAD\<close>. \<^verbatim>\<open>_h\<close> and \<^verbatim>\<open>_c\<close> do not exist until \<^verbatim>\<open>reset()\<close>
  runs in the legacy format, hence the options.
\<close>

record SileroVAD =
  threshold :: real
  silence_duration :: real
  min_speech_duration :: real
  vad_sample_rate :: int
  session :: "ort_session option"
  v_state :: tensor
  v_h :: "tensor option"
  v_c :: "tensor option"
  use_state_input :: bool
  speech_detected :: bool
  speech_start_time :: "real option"
  last_speech_time :: real

definition zeros :: "nat \<Rightarrow> tensor" where
  "zeros n = replicate n 0"

definition SileroVAD_init :: "real \<Rightarrow> real \<Rightarrow> real \<Rightarrow> int \<Rightarrow> SileroVAD" where
  "SileroVAD_init thr sil msd sr =
     \<lparr> threshold = thr, silence_duration = sil, min_speech_duration = msd,
       vad_sample_rate = sr,
       session = None,
       v_state = zeros (2 * 1 * 128),
       v_h = None, v_c = None,
       use_state_input = True,
       speech_detected = False,
       speech_start_time = None,
       last_speech_time = 0 \<rparr>"

definition reset :: "SileroVAD \<Rightarrow> SileroVAD" where
  "reset v =
     (let v1 = (if use_state_input v then v\<lparr>v_state := zeros (2 * 1 * 128)\<rparr>
                else v\<lparr>v_h := Some (zeros (2 * 1 * 64)), v_c := Some (zeros (2 * 1 * 64))\<rparr>)
      in v1\<lparr>speech_detected := False, speech_start_time := None, last_speech_time := 0\<rparr>)"

text \<open>
  \<^verbatim>\<open>load()\<close>: \<open>fetched\<close> is the session that the cached or downloaded model file gives,
  \<open>None\<close> when the download or the session constructor raises.
\<close>

definition load :: "ort_session option \<Rightarrow> SileroVAD \<Rightarrow> (error + unit) \<times> SileroVAD" where
  "load fetched v =
     (case fetched of
        None \<Rightarrow> (Inl ModelUnavailable, v)
      | Some sess \<Rightarrow>
          (let v1 = v\<lparr>session := Some sess\<rparr>;
               v2 = v1\<lparr>use_state_input := (''state'' \<in> set (input_names sess))\<rparr>
           in (Inr (), reset v2)))"

definition pad_chunk :: "real list \<Rightarrow> real list" where
  "pad_chunk chunk =
     (if length chunk < VAD_CHUNK_SAMPLES
      then chunk @ replicate (VAD_CHUNK_SAMPLES - length chunk) 0 else chunk)"

text \<open>
  The \<^verbatim>\<open>for start in range(0, len(audio_float), VAD_CHUNK_SAMPLES)\<close> loop of
  \<^verbatim>\<open>process_chunk\<close>: \<open>audio\<close> is what is left of the block, \<open>prob\<close> the probability so far.
\<close>

function process_loop ::
  "ort_session \<Rightarrow> real list \<Rightarrow> real \<Rightarrow> SileroVAD \<Rightarrow> (error + real) \<times> SileroVAD" where
  "process_loop sess audio prob v =
     (if audio = [] then (Inr prob, v)
      else
        (let chunk = pad_chunk (take VAD_CHUNK_SAMPLES audio);
             sr = vad_sample_rate v
         in if use_state_input v then
              (let out = run_state sess chunk (v_state v) sr
               in process_loop sess (drop VAD_CHUNK_SAMPLES audio) (fst out)
                    (v\<lparr>v_state := snd out\<rparr>))
            else
              (case v_h v of
                 None \<Rightarrow> (Inl AttributeError, v)
               | Some h \<Rightarrow>
                   (case v_c v of
                      None \<Rightarrow> (Inl AttributeError, v)
                    | Some c \<Rightarrow>
                        (let out = run_legacy sess chunk h c sr
                         in process_loop sess (drop VAD_CHUNK_SAMPLES audio) (fst out)
                              (v\<lparr>v_h := Some (fst (snd out)),
                                 v_c := Some (snd (snd out))\<rparr>))))))"
  by pat_completeness auto
termination
  by (relation "measure (\<lambda>(sess, audio, prob, v). length audio)")
     (auto simp: VAD_CHUNK_SAMPLES_def)

declare process_loop.simps [simp del]

definition process_chunk :: "sample list \<Rightarrow> SileroVAD \<Rightarrow> (error + real) \<times> SileroVAD" where
  "process_chunk audio_int16 v =
     (case session v of
        None \<Rightarrow> (Inl VAD_model_not_loaded, v)
      | Some sess \<Rightarrow>
          (let audio_float = map (\<lambda>s. real_of_int (sint s) / 32768) audio_int16
           in process_loop sess audio_float 0 v))"

definition is_speech :: "real \<Rightarrow> sample list \<Rightarrow> SileroVAD \<Rightarrow> (error + bool) \<times> SileroVAD" where
  "is_speech now audio_int16 v =
     (case process_chunk audio_int16 v of
        (Inl e, v') \<Rightarrow> (Inl e, v')
      | (Inr prob, v') \<Rightarrow>
          (if prob \<ge> threshold v' then
             (let v1 = (if \<not> speech_detected v'
                        then v'\<lparr>speech_detected := True, speech_start_time := Some now\<rparr>
                        else v')
              in (Inr True, v1\<lparr>last_speech_time := now\<rparr>))
           else (Inr False, v')))"

definition should_stop :: "real \<Rightarrow> SileroVAD \<Rightarrow> bool \<times> SileroVAD" where
  "should_stop now v =
     (if \<not> speech_detected v then (False, v)
      else
        (case speech_start_time v of
           None \<Rightarrow> (False, v)
         | Some start \<Rightarrow>
             (let speech_duration = last_speech_time v - start;
                  silence = now - last_speech_time v
              in if speech_duration < min_speech_duration v then (False, v)
                 else (silence \<ge> silence_duration v, v))))"

text \<open>Calls on a detector, each stamped with the clock value it reads.\<close>

datatype vad_op = Load "ort_session option" | Reset | IsSpeech "sample list" | ShouldStop

fun vad_step :: "real \<times> vad_op \<Rightarrow> SileroVAD \<Rightarrow> SileroVAD" where
  "vad_step (now, Load fetched) v = snd (load fetched v)"
| "vad_step (now, Reset) v = reset v"
| "vad_step (now, IsSpeech audio) v = snd (is_speech now audio v)"
| "vad_step (now, ShouldStop) v = snd (should_stop now v)"

fun vad_run :: "(real \<times> vad_op) list \<Rightarrow> SileroVAD \<Rightarrow> SileroVAD" where
  "vad_run [] v = v"
| "vad_run (x # xs) v = vad_run xs (vad_step x v)"

text \<open>
  The timing invariant of the speech tracking at clock value \<open>t\<close>: once speech has been
  detected, its onset is recorded and lies before the last speech, which lies before \<open>t\<close>.
\<close>

definition tracking_ok :: "real \<Rightarrow> SileroVAD \<Rightarrow> bool" where
  "tracking_ok t v =
     (speech_detected v \<longrightarrow>
        (\<exists>s. speech_start_time v = Some s \<and> s \<le> last_speech_time v \<and> last_speech_time v \<le> t))"

text \<open>A history of calls in which \<^verbatim>\<open>load()\<close> does not occur.\<close>

definition never_loaded :: "(real \<times> vad_op) list \<Rightarrow> bool" where
  "never_loaded ops = list_all (\<lambda>x. case snd x of Load f \<Rightarrow> False | _ \<Rightarrow> True) ops"

text \<open>
  A scoring function for concrete runs: 0.9 on a window whose first sample is positive,
  0.1 otherwise; the hidden state is passed through.
\<close>

definition sess0 :: ort_session where
  "sess0 = \<lparr> input_names = [''input'', ''state'', ''sr''],
       run_state = (\<lambda>chunk st sr. (if hd chunk > 0 then 0.9 else 0.1, st)),
       run_legacy = (\<lambda>chunk h c sr. (0, h, c)) \<rparr>"

subsection \<open>Effects\<close>

datatype AppState = IDLE | RECORDING | PROCESSING | ERROR

type_synonym byte = "8 word"

text \<open>The events that the modelled code emits on the event bus, with their arguments.\<close>

datatype event =
    audio_ready "byte list" real  \<comment> \<open>\<^verbatim>\<open>audio.ready\<close>: \<^verbatim>\<open>wav_bytes\<close>, \<^verbatim>\<open>duration\<close>\<close>
  | audio_level real              \<comment> \<open>\<^verbatim>\<open>audio.level\<close>\<close>
  | audio_silence                 \<comment> \<open>\<^verbatim>\<open>audio.silence\<close>\<close>
  | hotkey_dictation_start        \<comment> \<open>\<^verbatim>\<open>hotkey.dictation.start\<close>\<close>
  | hotkey_dictation_stop         \<comment> \<open>\<^verbatim>\<open>hotkey.dictation.stop\<close>\<close>
  | state_change AppState AppState  \<comment> \<open>\<^verbatim>\<open>state.change\<close>: old state, new state\<close>
  | stt_started                   \<comment> \<open>\<^verbatim>\<open>stt.started\<close>\<close>
  | stt_complete "nat list" "nat list option"
      \<comment> \<open>\<^verbatim>\<open>stt.complete\<close>: text and language, each a Python \<^verbatim>\<open>str\<close> as its code points\<close>

datatype effect =
    Emit event
  | InputStream_open int   \<comment> \<open>\<^verbatim>\<open>sd.InputStream(samplerate=..., ...)\<close> returned a stream\<close>
  | InputStream_start
  | InputStream_stop
  | InputStream_close
  | Thread_stop            \<comment> \<open>\<^verbatim>\<open>threading.Thread(target=self.stop, daemon=True).start()\<close>\<close>
  | Thread_vad_monitor     \<comment> \<open>\<^verbatim>\<open>threading.Thread(target=self._vad_monitor, ...).start()\<close>\<close>
  | Thread_stt_pipeline "byte list" real
      \<comment> \<open>\<^verbatim>\<open>threading.Thread(target=self._process_audio, args=(wav_bytes, duration), ...).start()\<close>\<close>

subsection \<open>The WAV container (Python's \<^verbatim>\<open>struct\<close> and \<^verbatim>\<open>wave\<close> modules)\<close>

text \<open>
  \<^verbatim>\<open>_to_wav\<close> writes through the standard library's \<^verbatim>\<open>wave.Wave_write\<close>, and a reader
  parses with \<^verbatim>\<open>wave.Wave_read\<close>. Both are modelled here from the library's source
  (\<^verbatim>\<open>Lib/wave.py\<close>, Python 3.12) on byte lists, for an in-memory file (\<^verbatim>\<open>io.BytesIO\<close>).
\<close>

fun le_bytes :: "nat \<Rightarrow> nat \<Rightarrow> byte list" where
  "le_bytes 0 n = []"
| "le_bytes (Suc k) n = of_nat (n mod 256) # le_bytes k (n div 256)"

fun le_nat :: "byte list \<Rightarrow> nat" where
  "le_nat [] = 0"
| "le_nat (b # bs) = unat b + 256 * le_nat bs"

text \<open>
  The items of a little-endian \<^verbatim>\<open>struct.pack\<close> format: \<^verbatim>\<open>L\<close> (unsigned, 4 bytes),
  \<^verbatim>\<open>H\<close> (unsigned, 2 bytes), \<^verbatim>\<open>4s\<close> (4 bytes, cut or zero-padded). A value out of the
  range of its item raises \<^verbatim>\<open>struct.error\<close>.
\<close>

datatype item = L int | H int | S4 "byte list"

fun pack_item :: "item \<Rightarrow> error + byte list" where
  "pack_item (L n) = (if 0 \<le> n \<and> n < 2 ^ 32 then Inr (le_bytes 4 (nat n)) else Inl struct_error)"
| "pack_item (H n) = (if 0 \<le> n \<and> n < 2 ^ 16 then Inr (le_bytes 2 (nat n)) else Inl struct_error)"
| "pack_item (S4 bs) = Inr (take 4 (bs @ replicate 4 0))"

fun struct_pack :: "item list \<Rightarrow> error + byte list" where
  "struct_pack [] = Inr []"
| "struct_pack (x # xs) =
     (case pack_item x of
        Inl e \<Rightarrow> Inl e
      | Inr b \<Rightarrow> (case struct_pack xs of Inl e \<Rightarrow> Inl e | Inr bs \<Rightarrow> Inr (b @ bs)))"

definition RIFF :: "byte list" where "RIFF = [0x52, 0x49, 0x46, 0x46]"  \<comment> \<open>\<^verbatim>\<open>b'RIFF'\<close>\<close>
definition WAVE :: "byte list" where "WAVE = [0x57, 0x41, 0x56, 0x45]"  \<comment> \<open>\<^verbatim>\<open>b'WAVE'\<close>\<close>
definition fmt_id :: "byte list" where "fmt_id = [0x66, 0x6D, 0x74, 0x20]"  \<comment> \<open>\<^verbatim>\<open>b'fmt '\<close>\<close>
definition data_id :: "byte list" where "data_id = [0x64, 0x61, 0x74, 0x61]"  \<comment> \<open>\<^verbatim>\<open>b'data'\<close>\<close>
definition WAVE_FORMAT_PCM :: nat where "WAVE_FORMAT_PCM = 0x0001"
definition WAVE_FORMAT_EXTENSIBLE :: nat where "WAVE_FORMAT_EXTENSIBLE = 0xFFFE"
definition KSDATAFORMAT_SUBTYPE_PCM :: "byte list" where
  "KSDATAFORMAT_SUBTYPE_PCM =
     [0x01, 0x00, 0x00, 0x00, 0x00, 0x00, 0x10, 0x00, 0x80, 0x00, 0x00, 0xAA, 0x00, 0x38, 0x9B, 0x71]"

text \<open>
  \<^verbatim>\<open>Wave_write._write_header(initlength)\<close> with \<^verbatim>\<open>_nframes\<close> still 0: the 44 bytes of the
  header, announcing \<open>datalength\<close> bytes of samples.
\<close>

definition write_header :: "int \<Rightarrow> int \<Rightarrow> int \<Rightarrow> int \<Rightarrow> error + byte list" where
  "write_header nchannels sampwidth framerate datalength =
     (case struct_pack
             [L (36 + datalength), S4 WAVE, S4 fmt_id, L 16,
              H (int WAVE_FORMAT_PCM), H nchannels, L framerate,
              L (nchannels * framerate * sampwidth),
              H (nchannels * sampwidth),
              H (sampwidth * 8), S4 data_id] of
        Inl e \<Rightarrow> Inl e
      | Inr hdr \<Rightarrow>
          (case struct_pack [L datalength] of
             Inl e \<Rightarrow> Inl e
           | Inr len \<Rightarrow> Inr (RIFF @ hdr @ len)))"

text \<open>
  \<^verbatim>\<open>_patchheader\<close>: the two length fields (at offsets 4 and 40) are written again from
  the number of bytes actually written.
\<close>

definition patchheader :: "byte list \<Rightarrow> int \<Rightarrow> error + byte list" where
  "patchheader file datawritten =
     (case struct_pack [L (36 + datawritten)] of
        Inl e \<Rightarrow> Inl e
      | Inr form_length \<Rightarrow>
          (case struct_pack [L datawritten] of
             Inl e \<Rightarrow> Inl e
           | Inr data_length \<Rightarrow>
               Inr (take 4 file @ form_length @ take 32 (drop 8 file) @ data_length @ drop 44 file)))"

text \<open>
  The file that \<^verbatim>\<open>setnchannels\<close>, \<^verbatim>\<open>setsampwidth\<close>, \<^verbatim>\<open>setframerate\<close>, one
  \<^verbatim>\<open>writeframes(data)\<close> and \<^verbatim>\<open>close()\<close> leave in the buffer, on a little-endian host.
\<close>

definition wave_write :: "int \<Rightarrow> int \<Rightarrow> int \<Rightarrow> byte list \<Rightarrow> error + byte list" where
  "wave_write nchannels sampwidth framerate data =
     (if nchannels < 1 then Inl wave_Error
      else if sampwidth < 1 \<or> sampwidth > 4 then Inl wave_Error
      else if framerate \<le> 0 then Inl wave_Error
      else
        (let nframes = int (length data) div (nchannels * sampwidth);
             datalength = nframes * nchannels * sampwidth
         in case write_header nchannels sampwidth framerate datalength of
              Inl e \<Rightarrow> Inl e
            | Inr hdr \<Rightarrow>
                (let file = hdr @ data; datawritten = int (length data)
                 in if datalength \<noteq> datawritten then patchheader file datawritten
                    else Inr file)))"

record wave_params =
  nchannels :: nat
  sampwidth :: nat
  framerate :: nat
  nframes :: nat

record wave_fmt =
  fmt_nchannels :: nat
  fmt_sampwidth :: nat
  fmt_framerate :: nat
  fmt_framesize :: nat

text \<open>
  \<^verbatim>\<open>Wave_read._read_fmt_chunk\<close> on the bytes \<open>body\<close> that the chunk can deliver; the second
  component of the result is the number of bytes it has read.
\<close>

definition read_fmt_chunk :: "byte list \<Rightarrow> error + (wave_fmt \<times> nat)" where
  "read_fmt_chunk body =
     (if length (take 14 body) < 14 then Inl EOFError
      else
        (let wFormatTag = le_nat (take 2 body);
             nch = le_nat (take 2 (drop 2 body));
             rate = le_nat (take 4 (drop 4 body))
         in if wFormatTag \<noteq> WAVE_FORMAT_PCM \<and> wFormatTag \<noteq> WAVE_FORMAT_EXTENSIBLE
            then Inl wave_Error
            else if length (take 2 (drop 14 body)) < 2 then Inl EOFError
            else
              (let bits = le_nat (take 2 (drop 14 body));
                   ext = (if wFormatTag = WAVE_FORMAT_EXTENSIBLE then
                            (if length (take 8 (drop 16 body)) < 8 then Inl EOFError
                             else if length (take 16 (drop 24 body)) < 16 then Inl EOFError
                             else if take 16 (drop 24 body) \<noteq> KSDATAFORMAT_SUBTYPE_PCM
                             then Inl wave_Error
                             else Inr (40::nat))
                          else Inr 16)
               in case ext of
                    Inl e \<Rightarrow> Inl e
                  | Inr size_read \<Rightarrow>
                      (let sw = (bits + 7) div 8
                       in if sw = 0 then Inl wave_Error
                          else if nch = 0 then Inl wave_Error
                          else Inr (\<lparr> fmt_nchannels = nch, fmt_sampwidth = sw,
                                      fmt_framerate = rate, fmt_framesize = nch * sw \<rparr>,
                                    size_read)))))"

text \<open>
  The \<^verbatim>\<open>while 1\<close> loop of \<^verbatim>\<open>Wave_read.initfp\<close>. \<open>rest\<close> is the file from the current
  position, \<open>remaining\<close> what the enclosing RIFF chunk still allows to read
  (\<^verbatim>\<open>chunksize - size_read\<close>), \<open>fmt\<close> the format chunk once it has been read. Reads
  through the RIFF chunk stop at its size; \<^verbatim>\<open>skip()\<close> seeks in the RIFF chunk, which raises
  \<^verbatim>\<open>RuntimeError\<close> beyond its size. (The pad byte that \<^verbatim>\<open>_Chunk.read\<close> consumes at the end
  of an odd-sized RIFF chunk is left out: no read returns data after it.)
\<close>

function read_chunks :: "nat \<Rightarrow> byte list \<Rightarrow> wave_fmt option \<Rightarrow> error + wave_params" where
  "read_chunks remaining rest fmt =
     (let chunkname = take (min 4 remaining) rest
      in if length chunkname < 4 then Inl wave_Error
         else
           (let size_bytes = take (min 4 (remaining - 4)) (drop 4 rest)
            in if length size_bytes < 4 then Inl wave_Error
               else
                 (let chunksize = le_nat size_bytes;
                      remaining' = remaining - 8;
                      rest' = drop 8 rest;
                      padded = (if odd chunksize then chunksize + 1 else chunksize)
                  in if chunkname = fmt_id then
                       (case read_fmt_chunk (take (min chunksize remaining') rest') of
                          Inl e \<Rightarrow> Inl e
                        | Inr (f, size_read) \<Rightarrow>
                            (if padded - size_read > remaining' - size_read then Inl RuntimeError
                             else read_chunks (remaining' - padded) (drop padded rest') (Some f)))
                     else if chunkname = data_id then
                       (case fmt of
                          None \<Rightarrow> Inl wave_Error
                        | Some f \<Rightarrow>
                            Inr \<lparr> nchannels = fmt_nchannels f, sampwidth = fmt_sampwidth f,
                                  framerate = fmt_framerate f,
                                  nframes = chunksize div fmt_framesize f \<rparr>)
                     else if padded > remaining' then Inl RuntimeError
                     else read_chunks (remaining' - padded) (drop padded rest') fmt)))"
  by pat_completeness auto
termination
  by (relation "measure (\<lambda>(remaining, rest, fmt). remaining)") (auto split: if_splits)

declare read_chunks.simps [simp del]

text \<open>\<^verbatim>\<open>wave.open(io.BytesIO(file), "rb")\<close> followed by \<^verbatim>\<open>getparams()\<close>.\<close>

definition wave_read :: "byte list \<Rightarrow> error + wave_params" where
  "wave_read file =
     (if length (take 4 file) < 4 then Inl EOFError
      else if length (take 4 (drop 4 file)) < 4 then Inl EOFError
      else
        (let chunksize = le_nat (take 4 (drop 4 file))
         in if take 4 file \<noteq> RIFF then Inl wave_Error
            else if take (min 4 chunksize) (drop 8 file) \<noteq> WAVE then Inl wave_Error
            else read_chunks (chunksize - 4) (drop 12 file) None))"

subsection \<open>Audio capture (\<^verbatim>\<open>audio/capture.py\<close>)\<close>

text \<open>
  The stream object that \<^verbatim>\<open>sd.InputStream(...)\<close> returns, with the sample rate it was
  opened at. What the device does when it is opened is an input of \<^verbatim>\<open>start()\<close>.
\<close>

datatype InputStream = InputStream int

datatype device_outcome =
    Opens                \<comment> \<open>the constructor and \<^verbatim>\<open>start()\<close> of the stream return\<close>
  | Constructor_raises   \<comment> \<open>\<^verbatim>\<open>sd.InputStream(...)\<close> raises\<close>
  | Start_raises         \<comment> \<open>the constructor returns, \<^verbatim>\<open>self._stream.start()\<close> raises\<close>

record AudioCapture =
  sample_rate :: int
  device :: "string option"
  recording :: bool
  frames :: "sample list list"
  stream :: "InputStream option"
  start_time :: real

definition AudioCapture_init :: "int \<Rightarrow> string option \<Rightarrow> AudioCapture" where
  "AudioCapture_init rate dev =
     \<lparr> sample_rate = rate, device = dev, recording = False, frames = [],
       stream = None, start_time = 0 \<rparr>"

definition duration :: "real \<Rightarrow> AudioCapture \<Rightarrow> real" where
  "duration now a = (if \<not> recording a then 0 else now - start_time a)"

definition AudioCapture_start ::
  "device_outcome \<Rightarrow> real \<Rightarrow> AudioCapture \<Rightarrow> (error + unit) \<times> AudioCapture \<times> effect list" where
  "AudioCapture_start dev now a =
     (if recording a then (Inr (), a, [])
      else
        (let a1 = a\<lparr>frames := [], recording := True, start_time := now\<rparr>
         in case dev of
              Constructor_raises \<Rightarrow> (Inl PortAudioError, a1, [])
            | Start_raises \<Rightarrow>
                (Inl PortAudioError, a1\<lparr>stream := Some (InputStream (sample_rate a1))\<rparr>,
                 [InputStream_open (sample_rate a1)])
            | Opens \<Rightarrow>
                (Inr (), a1\<lparr>stream := Some (InputStream (sample_rate a1))\<rparr>,
                 [InputStream_open (sample_rate a1), InputStream_start])))"

text \<open>\<^verbatim>\<open>ndarray.tobytes()\<close> of int16 samples as the WAV file holds them: low byte first.\<close>

definition tobytes :: "sample list \<Rightarrow> byte list" where
  "tobytes audio_data = concat (map (\<lambda>s. [ucast s, ucast (drop_bit 8 s)]) audio_data)"

definition to_wav :: "AudioCapture \<Rightarrow> sample list \<Rightarrow> error + byte list" where
  "to_wav a audio_data = wave_write (int AUDIO_CHANNELS) 2 (sample_rate a) (tobytes audio_data)"

definition AudioCapture_stop ::
  "real \<Rightarrow> AudioCapture \<Rightarrow> (error + byte list option) \<times> AudioCapture \<times> effect list" where
  "AudioCapture_stop now a =
     (if \<not> recording a then (Inr None, a, [])
      else
        (let a1 = a\<lparr>recording := False\<rparr>;
             a2 = (case stream a1 of None \<Rightarrow> a1 | Some s \<Rightarrow> a1\<lparr>stream := None\<rparr>);
             fx = (case stream a1 of None \<Rightarrow> [] | Some s \<Rightarrow> [InputStream_stop, InputStream_close]);
             dur = now - start_time a2
         in if frames a2 = [] then (Inr None, a2, fx)
            else
              (case to_wav a2 (concat (frames a2)) of
                 Inl e \<Rightarrow> (Inl e, a2, fx)
               | Inr wav_bytes \<Rightarrow>
                   (Inr (Some wav_bytes), a2, fx @ [Emit (audio_ready wav_bytes dur)]))))"

text \<open>
  The level sent to the user interface: the RMS of the block, scaled and capped at 1.
  (An empty block, which the driver never delivers, makes numpy's mean NaN; the model is
  for the non-empty blocks of \<open>AUDIO_BLOCKSIZE\<close> samples.)
\<close>

definition audio_level_of :: "sample list \<Rightarrow> real" where
  "audio_level_of indata =
     (let rms = sqrt ((\<Sum>s\<leftarrow>indata. (real_of_int (sint s))\<^sup>2) / real (length indata))
      in min 1 (rms / 32768 * 10))"

definition audio_callback :: "real \<Rightarrow> sample list \<Rightarrow> AudioCapture \<Rightarrow> AudioCapture \<times> effect list" where
  "audio_callback now indata a =
     (if \<not> recording a then (a, [])
      else if duration now a \<ge> MAX_RECORDING_DURATION then (a, [Thread_stop])
      else (a\<lparr>frames := frames a @ [indata]\<rparr>, [Emit (audio_level (audio_level_of indata))]))"

text \<open>
  One recording session seen from the capture object: driver callbacks, the stop threads
  that the duration check has started and that run when the scheduler picks them
  (\<open>pending_stops\<close> counts those that have not run yet), and calls of \<^verbatim>\<open>stop()\<close> by other
  callers. \<^verbatim>\<open>stop()\<close> runs under the object's lock, so it is one step. \<open>trace\<close> collects
  the effects.
\<close>

record capture_world =
  cap :: AudioCapture
  pending_stops :: nat
  trace :: "effect list"

datatype capture_step =
    Callback real "sample list"
  | Run_stop_thread real
  | Call_stop real

fun world_step :: "capture_step \<Rightarrow> capture_world \<Rightarrow> capture_world" where
  "world_step (Callback now indata) w =
     (let r = audio_callback now indata (cap w)
      in w\<lparr>cap := fst r,
           pending_stops := pending_stops w + count_list (snd r) Thread_stop,
           trace := trace w @ snd r\<rparr>)"
| "world_step (Run_stop_thread now) w =
     (if pending_stops w = 0 then w
      else
        (let r = AudioCapture_stop now (cap w)
         in w\<lparr>cap := fst (snd r),
              pending_stops := pending_stops w - 1,
              trace := trace w @ snd (snd r)\<rparr>))"
| "world_step (Call_stop now) w =
     (let r = AudioCapture_stop now (cap w)
      in w\<lparr>cap := fst (snd r), trace := trace w @ snd (snd r)\<rparr>)"

fun world_run :: "capture_step list \<Rightarrow> capture_world \<Rightarrow> capture_world" where
  "world_run [] w = w"
| "world_run (s # ss) w = world_run ss (world_step s w)"

definition is_audio_ready :: "effect \<Rightarrow> bool" where
  "is_audio_ready e = (case e of Emit (audio_ready w d) \<Rightarrow> True | _ \<Rightarrow> False)"

text \<open>The capture object right after a successful \<^verbatim>\<open>start()\<close> at time \<open>t0\<close>.\<close>

definition started :: "int \<Rightarrow> string option \<Rightarrow> real \<Rightarrow> capture_world" where
  "started rate dev t0 =
     \<lparr> cap = fst (snd (AudioCapture_start Opens t0 (AudioCapture_init rate dev))),
       pending_stops = 0, trace = [] \<rparr>"

subsection \<open>The dictation controller (\<^verbatim>\<open>app.py\<close>)\<close>

text \<open>
  Of the application object, the state machine and the two components it drives; of the
  configuration, the audio section. The speech-to-text backend, the injector and the
  user interface are collaborators outside this model; what the transcription thread
  does is \<open>process_audio\<close>, with the backend's behaviour as an input. The other
  components that \<^verbatim>\<open>setup()\<close> initialises are taken to initialise without raising.
\<close>

record AudioConfig =
  cfg_sample_rate :: int
  cfg_device :: "string option"
  cfg_silence_threshold :: real
  cfg_silence_duration :: real

record LinuxWhispr =
  app_state :: AppState
  app_audio :: AudioCapture
  app_vad :: SileroVAD
  vad_active :: bool

text \<open>
  \<^verbatim>\<open>__init__\<close> and \<^verbatim>\<open>setup()\<close>: the capture object takes the configured rate and device, the
  detector the configured threshold and silence duration and the defaults for the rest;
  then the detector is loaded.
\<close>

definition app_setup :: "AudioConfig \<Rightarrow> ort_session option \<Rightarrow> error + LinuxWhispr" where
  "app_setup cfg fetched =
     (let a = AudioCapture_init (cfg_sample_rate cfg) (cfg_device cfg);
          v = SileroVAD_init (cfg_silence_threshold cfg) (cfg_silence_duration cfg)
                VAD_MIN_SPEECH_DURATION AUDIO_SAMPLE_RATE
      in case load fetched v of
           (Inl e, v') \<Rightarrow> Inl e
         | (Inr u, v') \<Rightarrow>
             Inr \<lparr> app_state = IDLE, app_audio = a, app_vad = v', vad_active = False \<rparr>)"

definition set_state :: "AppState \<Rightarrow> LinuxWhispr \<Rightarrow> LinuxWhispr \<times> effect list" where
  "set_state new_state app =
     (app\<lparr>app_state := new_state\<rparr>, [Emit (state_change (app_state app) new_state)])"

text \<open>
  The event bus calls the handlers registered for an event when it is emitted. \<^verbatim>\<open>setup()\<close>
  registers \<^verbatim>\<open>_on_audio_ready\<close> for \<^verbatim>\<open>audio.ready\<close>, which starts the transcription thread.
\<close>

fun deliver :: "effect list \<Rightarrow> effect list" where
  "deliver [] = []"
| "deliver (Emit (audio_ready wav_bytes dur) # fx) =
     Emit (audio_ready wav_bytes dur) # Thread_stt_pipeline wav_bytes dur # deliver fx"
| "deliver (e # fx) = e # deliver fx"

definition start_recording ::
  "device_outcome \<Rightarrow> real \<Rightarrow> LinuxWhispr \<Rightarrow> (error + unit) \<times> LinuxWhispr \<times> effect list" where
  "start_recording dev now app =
     (let s = set_state RECORDING app;
          app1 = (fst s)\<lparr>app_vad := reset (app_vad (fst s))\<rparr>;
          r = AudioCapture_start dev now (app_audio app1);
          app2 = app1\<lparr>app_audio := fst (snd r)\<rparr>
      in case fst r of
           Inl e \<Rightarrow> (Inl e, app2, snd s @ deliver (snd (snd r)))
         | Inr u \<Rightarrow>
             (Inr (), app2\<lparr>vad_active := True\<rparr>,
              snd s @ deliver (snd (snd r)) @ [Emit hotkey_dictation_start, Thread_vad_monitor]))"

definition stop_recording ::
  "real \<Rightarrow> LinuxWhispr \<Rightarrow> (error + unit) \<times> LinuxWhispr \<times> effect list" where
  "stop_recording now app =
     (let s = set_state PROCESSING (app\<lparr>vad_active := False\<rparr>);
          r = AudioCapture_stop now (app_audio (fst s));
          app1 = (fst s)\<lparr>app_audio := fst (snd r)\<rparr>;
          fx = snd s @ [Emit hotkey_dictation_stop] @ deliver (snd (snd r))
      in case fst r of
           Inl e \<Rightarrow> (Inl e, app1, fx)
         | Inr None \<Rightarrow> (Inr (), fst (set_state IDLE app1), fx @ snd (set_state IDLE app1))
         | Inr (Some wav_bytes) \<Rightarrow> (Inr (), app1, fx))"

definition on_dictation_hotkey ::
  "device_outcome \<Rightarrow> real \<Rightarrow> LinuxWhispr \<Rightarrow> (error + unit) \<times> LinuxWhispr \<times> effect list" where
  "on_dictation_hotkey dev now app =
     (if app_state app = IDLE then start_recording dev now app
      else if app_state app = RECORDING then stop_recording now app
      else (Inr (), app, []))"

text \<open>
  One pass of the \<^verbatim>\<open>while\<close> loop of \<^verbatim>\<open>_vad_monitor\<close>; \<open>now\<close> is the clock as \<^verbatim>\<open>is_speech\<close>
  reads it, \<open>now'\<close> as \<^verbatim>\<open>should_stop\<close> reads it, \<open>now''\<close> as \<^verbatim>\<open>stop()\<close> reads it. The
  Boolean tells whether the loop goes on (to the sleep and the next pass).
\<close>

definition vad_monitor_pass ::
  "real \<Rightarrow> real \<Rightarrow> real \<Rightarrow> LinuxWhispr \<Rightarrow> (error + bool) \<times> LinuxWhispr \<times> effect list" where
  "vad_monitor_pass now now' now'' app =
     (if \<not> (vad_active app \<and> recording (app_audio app)) then (Inr False, app, [])
      else if frames (app_audio app) = [] then (Inr True, app, [])
      else
        (let r = is_speech now (last (frames (app_audio app))) (app_vad app);
             app1 = app\<lparr>app_vad := snd r\<rparr>
         in case fst r of
              Inl e \<Rightarrow> (Inl e, app1, [])
            | Inr b \<Rightarrow>
                (if fst (should_stop now' (app_vad app1)) then
                   (let st = stop_recording now'' app1
                    in (case fst st of Inl e \<Rightarrow> Inl e | Inr u \<Rightarrow> Inr False,
                        fst (snd st), Emit audio_silence # snd (snd st)))
                 else (Inr True, app1, []))))"

text \<open>
  The transcription thread \<^verbatim>\<open>_process_audio\<close>. The speech-to-text backend is a
  collaborator, described by what its calls do in this run: whether its model is loaded,
  whether \<^verbatim>\<open>load()\<close> raises, and the text and language of \<^verbatim>\<open>transcribe\<close> or its failure.
  After a transcription with text, the snippet, refinement, injection and history steps
  call collaborators that emit nothing here; they are left out and taken to return.
\<close>

record stt_backend =
  stt_is_loaded :: bool
  stt_load_raises :: bool
  stt_transcribe :: "error + (nat list \<times> nat list option)"

text \<open>
  A Python \<^verbatim>\<open>str\<close> is a list of Unicode code points. \<^verbatim>\<open>str.strip()\<close> removes the
  characters for which \<^verbatim>\<open>str.isspace()\<close> holds, the 29 code points below, so
  \<^verbatim>\<open>not text.strip()\<close> says that the text holds nothing else.
\<close>

definition isspace :: "nat \<Rightarrow> bool" where
  "isspace c =
     (c \<in> set [0x09, 0x0A, 0x0B, 0x0C, 0x0D, 0x1C, 0x1D, 0x1E, 0x1F, 0x20, 0x85, 0xA0,
               0x1680, 0x2000, 0x2001, 0x2002, 0x2003, 0x2004, 0x2005, 0x2006, 0x2007,
               0x2008, 0x2009, 0x200A, 0x2028, 0x2029, 0x202F, 0x205F, 0x3000])"

definition is_blank :: "nat list \<Rightarrow> bool" where
  "is_blank text = list_all isspace text"

definition process_audio ::
  "stt_backend \<Rightarrow> LinuxWhispr \<Rightarrow> (error + unit) \<times> LinuxWhispr \<times> effect list" where
  "process_audio stt app =
     (let fx0 = (if \<not> stt_is_loaded stt then [Emit stt_started] else [])
      in if \<not> stt_is_loaded stt \<and> stt_load_raises stt then (Inl STT_error, app, fx0)
         else
           (let fx1 = fx0 @ [Emit stt_started]
            in case stt_transcribe stt of
                 Inl e \<Rightarrow>
                   (Inr (), fst (set_state ERROR app), fx1 @ snd (set_state ERROR app))
               | Inr (text, language) \<Rightarrow>
                   (if is_blank text
                    then (Inr (), fst (set_state IDLE app), fx1 @ snd (set_state IDLE app))
                    else (Inr (), fst (set_state IDLE app),
                          fx1 @ [Emit (stt_complete text language)] @
                          snd (set_state IDLE app)))))"

text \<open>
  What can happen to the application, in any order: the trigger, a driver callback, a
  stop thread of the duration check, a pass of a monitor thread, the end of a
  transcription thread. A step keeps the state that an exception leaves behind.
\<close>

datatype app_event =
    Trigger device_outcome real
  | Driver_callback real "sample list"
  | Guard_stop real
  | Monitor_pass real real real
  | Pipeline_end stt_backend

fun app_step :: "app_event \<Rightarrow> LinuxWhispr \<times> effect list \<Rightarrow> LinuxWhispr \<times> effect list" where
  "app_step (Trigger dev now) (app, tr) =
     (let r = on_dictation_hotkey dev now app in (fst (snd r), tr @ snd (snd r)))"
| "app_step (Driver_callback now indata) (app, tr) =
     (let r = audio_callback now indata (app_audio app)
      in (app\<lparr>app_audio := fst r\<rparr>, tr @ snd r))"
| "app_step (Guard_stop now) (app, tr) =
     (let r = AudioCapture_stop now (app_audio app)
      in (app\<lparr>app_audio := fst (snd r)\<rparr>, tr @ deliver (snd (snd r))))"
| "app_step (Monitor_pass now now' now'') (app, tr) =
     (let r = vad_monitor_pass now now' now'' app in (fst (snd r), tr @ snd (snd r)))"
| "app_step (Pipeline_end stt) (app, tr) =
     (let r = process_audio stt app in (fst (snd r), tr @ snd (snd r)))"

fun app_run :: "app_event list \<Rightarrow> LinuxWhispr \<times> effect list \<Rightarrow> LinuxWhispr \<times> effect list" where
  "app_run [] s = s"
| "app_run (e # es) s = app_run es (app_step e s)"

text \<open>The number of input streams that are open after the effects \<open>tr\<close>.\<close>

definition open_streams :: "effect list \<Rightarrow> int" where
  "open_streams tr =
     int (length (filter (\<lambda>e. case e of InputStream_open r \<Rightarrow> True | _ \<Rightarrow> False) tr)) -
     int (count_list tr InputStream_close)"

text \<open>
  The file that the writer produces for mono 16-bit samples at \<open>rate\<close> Hz: the 44-byte
  header, then the samples.
\<close>

definition wav_file :: "nat \<Rightarrow> byte list \<Rightarrow> byte list" where
  "wav_file rate data =
     RIFF @ le_bytes 4 (36 + length data) @ WAVE @ fmt_id @ le_bytes 4 16 @
     le_bytes 2 1 @ le_bytes 2 1 @ le_bytes 4 rate @ le_bytes 4 (rate * 2) @
     le_bytes 2 2 @ le_bytes 2 16 @ data_id @ le_bytes 4 (length data) @ data"

text \<open>
  The invariant of a session: while the capture is recording its stream is open, nothing
  has been closed or handed over, and every stop thread started so far is still waiting;
  once it has stopped, the stream is gone, it was closed once and at most one buffer was
  handed over.
\<close>

definition session_ok :: "capture_world \<Rightarrow> bool" where
  "session_ok w =
     (if recording (cap w)
      then stream (cap w) \<noteq> None \<and> count_list (trace w) InputStream_close = 0 \<and>
           filter is_audio_ready (trace w) = [] \<and>
           pending_stops w = count_list (trace w) Thread_stop
      else stream (cap w) = None \<and> count_list (trace w) InputStream_close = 1 \<and>
           length (filter is_audio_ready (trace w)) \<le> 1)"

text \<open>
  Two detectors give the scoring function the same inputs: the same format, the same
  rate and the same hidden state in the tensors that this format reads.
\<close>

definition same_inputs :: "SileroVAD \<Rightarrow> SileroVAD \<Rightarrow> bool" where
  "same_inputs v1 v2 =
     (use_state_input v1 = use_state_input v2 \<and> vad_sample_rate v1 = vad_sample_rate v2 \<and>
      (if use_state_input v1 then v_state v1 = v_state v2
       else v_h v1 = v_h v2 \<and> v_c v1 = v_c v2))"

text \<open>
  Invariants of the capture object and of a run of the application: a capture that holds
  a stream is recording, and the number of open streams is 1 if it holds one, 0 if not.
\<close>

definition stream_count :: "AudioCapture \<Rightarrow> int" where
  "stream_count a = (if stream a = None then 0 else 1)"

definition capture_ok :: "AudioCapture \<Rightarrow> bool" where
  "capture_ok a = (stream a \<noteq> None \<longrightarrow> recording a)"

definition app_ok :: "LinuxWhispr \<times> effect list \<Rightarrow> bool" where
  "app_ok s = (capture_ok (app_audio (fst s)) \<and>
               open_streams (snd s) = stream_count (app_audio (fst s)))"

subsection \<open>Concrete inputs\<close>

text \<open>
  A configuration with the default rate and the application that \<^verbatim>\<open>setup()\<close> builds from
  it with the scoring function \<open>sess0\<close>; the same at 44100 Hz, with a scoring function
  \<open>sess_rate\<close> that gives 0.9 exactly when it is handed the rate 16000; an application
  whose detector holds state of an earlier session; applications in the middle of a
  session; a session whose first driver callback comes after the duration limit, so that
  the duration check stops it with no block captured.
\<close>

definition cfg0 :: AudioConfig where
  "cfg0 = \<lparr> cfg_sample_rate = 16000, cfg_device = None,
            cfg_silence_threshold = 0.5, cfg_silence_duration = 2.0 \<rparr>"

definition app0 :: LinuxWhispr where
  "app0 = \<lparr> app_state = IDLE, app_audio = AudioCapture_init 16000 None,
            app_vad = snd (load (Some sess0) (SileroVAD_init 0.5 2.0 VAD_MIN_SPEECH_DURATION
                        AUDIO_SAMPLE_RATE)),
            vad_active = False \<rparr>"

definition cfg44 :: AudioConfig where
  "cfg44 = \<lparr> cfg_sample_rate = 44100, cfg_device = None,
             cfg_silence_threshold = 0.5, cfg_silence_duration = 2.0 \<rparr>"

definition sess_rate :: ort_session where
  "sess_rate = \<lparr> input_names = [''input'', ''state'', ''sr''],
       run_state = (\<lambda>chunk st sr. (if sr = 16000 then 0.9 else 0.1, st)),
       run_legacy = (\<lambda>chunk h c sr. (0, h, c)) \<rparr>"

definition app44 :: LinuxWhispr where
  "app44 = \<lparr> app_state = IDLE, app_audio = AudioCapture_init 44100 None,
             app_vad = snd (load (Some sess_rate) (SileroVAD_init 0.5 2.0
                         VAD_MIN_SPEECH_DURATION AUDIO_SAMPLE_RATE)),
             vad_active = False \<rparr>"

definition app44_recording :: LinuxWhispr where
  "app44_recording =
     fst (app_step (Driver_callback 0.1 [1000])
            (fst (snd (on_dictation_hotkey Opens 0 app44)), []))"

definition app_dirty :: LinuxWhispr where
  "app_dirty = app0\<lparr>app_vad := (app_vad app0)\<lparr>v_state := [1, 2, 3], speech_detected := True,
                   speech_start_time := Some 1, last_speech_time := 2\<rparr>\<rparr>"

definition stt0 :: stt_backend where
  "stt0 = \<lparr> stt_is_loaded = False, stt_load_raises = False,
            stt_transcribe = Inr (map of_char ''hello world'', Some (map of_char ''en'')) \<rparr>"

definition guard_stopped_empty :: "LinuxWhispr \<times> effect list" where
  "guard_stopped_empty =
     app_run [Trigger Opens 0, Driver_callback 361 [5], Guard_stop 362] (app0, [])"

definition app_recording :: LinuxWhispr where
  "app_recording = fst (app_run [Trigger Opens 0, Driver_callback 0.1 [1000]] (app0, []))"

definition app_processing :: LinuxWhispr where
  "app_processing =
     fst (app_run [Trigger Opens 0, Driver_callback 0.1 [1000], Trigger Opens 1] (app0, []))"

section \<open>Properties\<close>

subsection \<open>The detector\<close>

lemma process_loop_Nil: "process_loop sess [] prob v = (Inr prob, v)"
  by (subst process_loop.simps) simp

lemma process_loop_tracking:
  "speech_detected (snd (process_loop sess audio prob v)) = speech_detected v \<and>
   speech_start_time (snd (process_loop sess audio prob v)) = speech_start_time v \<and>
   last_speech_time (snd (process_loop sess audio prob v)) = last_speech_time v \<and>
   threshold (snd (process_loop sess audio prob v)) = threshold v \<and>
   session (snd (process_loop sess audio prob v)) = session v"
proof (induction sess audio prob v rule: process_loop.induct)
  case (1 sess audio prob v)
  show ?case
  proof (cases "audio = []")
    case True
    then show ?thesis by (simp add: process_loop_Nil)
  next
    case False
    note ne = this
    show ?thesis
    proof (cases "use_state_input v")
      case True
      with ne 1(1) show ?thesis
        by (subst (1 2 3 4 5) process_loop.simps) (simp add: Let_def)
    next
      case False
      with ne 1(2) show ?thesis
        by (subst (1 2 3 4 5) process_loop.simps)
           (cases "v_h v"; cases "v_c v"; simp add: Let_def)
    qed
  qed
qed

lemma process_chunk_tracking:
  "speech_detected (snd (process_chunk audio v)) = speech_detected v \<and>
   speech_start_time (snd (process_chunk audio v)) = speech_start_time v \<and>
   last_speech_time (snd (process_chunk audio v)) = last_speech_time v \<and>
   threshold (snd (process_chunk audio v)) = threshold v \<and>
   session (snd (process_chunk audio v)) = session v"
  by (cases "session v") (simp_all add: process_chunk_def process_loop_tracking)

lemma process_loop_single:
  "audio \<noteq> [] \<Longrightarrow> length audio \<le> VAD_CHUNK_SAMPLES \<Longrightarrow> use_state_input v \<Longrightarrow>
   process_loop sess audio prob v =
     (Inr (fst (run_state sess (pad_chunk audio) (v_state v) (vad_sample_rate v))),
      v\<lparr>v_state := snd (run_state sess (pad_chunk audio) (v_state v) (vad_sample_rate v))\<rparr>)"
  by (subst process_loop.simps) (simp add: Let_def process_loop_Nil)

text \<open>
  Claim C2. \<^verbatim>\<open>should_stop()\<close> returns true exactly when speech was detected, the observed
  speech duration \<open>last_speech_time - speech_start_time\<close> is at least
  \<open>min_speech_duration\<close> and the time since the last speech is at least
  \<open>silence_duration\<close>; the call leaves the detector unchanged; with thresholds 0.3 s and
  2.0 s and speech from 0 to 0.5 it is false at 2.0 and true at 2.5. (A detector with
  \<open>speech_detected\<close> set and no onset recorded, which no call produces, gives false.)
\<close>

theorem should_stop_spec:
  "fst (should_stop now v) =
     (speech_detected v \<and>
      (case speech_start_time v of
         None \<Rightarrow> False
       | Some start \<Rightarrow> last_speech_time v - start \<ge> min_speech_duration v) \<and>
      now - last_speech_time v \<ge> silence_duration v) \<and>
   snd (should_stop now v) = v \<and>
   (speech_detected v \<and> speech_start_time v = Some 0 \<and> last_speech_time v = 0.5 \<and>
    min_speech_duration v = 0.3 \<and> silence_duration v = 2.0 \<longrightarrow>
      \<not> fst (should_stop 2.0 v) \<and> fst (should_stop 2.5 v))"
  by (auto simp: should_stop_def Let_def split: option.splits)

lemmas vad_eval = SileroVAD_init_def load_def reset_def is_speech_def process_chunk_def
           process_loop_single process_loop_Nil VAD_CHUNK_SAMPLES_def pad_chunk_def Let_def sess0_def zeros_def should_stop_def

text \<open>
  The same example on a detector driven through \<^verbatim>\<open>load\<close>, \<^verbatim>\<open>reset\<close> and
  \<^verbatim>\<open>is_speech\<close>: speech at 0 and 0.5, silence at 1.0.
\<close>

theorem should_stop_spec_witness:
  "(let v = vad_run [(0, Load (Some sess0)), (0, Reset), (0, IsSpeech [1000]),
                     (0.5, IsSpeech [1000]), (1.0, IsSpeech [0])]
              (SileroVAD_init 0.5 2.0 0.3 16000)
    in speech_detected v \<and> speech_start_time v = Some 0 \<and> last_speech_time v = 0.5 \<and>
       min_speech_duration v = 0.3 \<and> silence_duration v = 2.0 \<and>
       \<not> fst (should_stop 2.0 v) \<and> fst (should_stop 2.5 v))"
proof -
  define v where "v = vad_run [(0, Load (Some sess0)), (0, Reset), (0, IsSpeech [1000]),
                     (0.5, IsSpeech [1000]), (1.0, IsSpeech [0])]
              (SileroVAD_init 0.5 2.0 0.3 16000)"
  have h: "speech_detected v \<and> speech_start_time v = Some 0 \<and> last_speech_time v = 0.5 \<and>
       min_speech_duration v = 0.3 \<and> silence_duration v = 2.0"
    unfolding v_def by (simp add: vad_eval)
  from should_stop_spec [of 0 v] h have "\<not> fst (should_stop 2.0 v) \<and> fst (should_stop 2.5 v)"
    by blast
  with h show ?thesis unfolding v_def [symmetric] by (simp add: Let_def)
qed

lemma is_speech_not_true:
  "fst (is_speech now audio v) \<noteq> Inr True \<Longrightarrow>
   speech_detected (snd (is_speech now audio v)) = speech_detected v \<and>
   speech_start_time (snd (is_speech now audio v)) = speech_start_time v \<and>
   last_speech_time (snd (is_speech now audio v)) = last_speech_time v"
  using process_chunk_tracking [of audio v]
  by (cases "process_chunk audio v"; cases "fst (process_chunk audio v)")
     (auto simp: is_speech_def Let_def split: if_splits)

lemma is_speech_true:
  "fst (is_speech now audio v) = Inr True \<Longrightarrow>
   speech_detected (snd (is_speech now audio v)) \<and>
   last_speech_time (snd (is_speech now audio v)) = now \<and>
   speech_start_time (snd (is_speech now audio v)) =
     (if speech_detected v then speech_start_time v else Some now)"
  using process_chunk_tracking [of audio v]
  by (cases "process_chunk audio v"; cases "fst (process_chunk audio v)")
     (auto simp: is_speech_def Let_def split: if_splits)

lemma tracking_ok_step:
  assumes "tracking_ok t v" "t \<le> fst x"
  shows "tracking_ok (fst x) (vad_step x v)"
proof (cases x)
  case (Pair now op)
  show ?thesis
  proof (cases op)
    case (Load fetched)
    with Pair show ?thesis
      by (cases fetched) (use assms in \<open>auto simp: tracking_ok_def load_def reset_def Let_def\<close>)
  next
    case Reset
    with Pair show ?thesis by (simp add: tracking_ok_def reset_def Let_def)
  next
    case (IsSpeech audio)
    show ?thesis
    proof (cases "fst (is_speech now audio v) = Inr True")
      case True
      from is_speech_true [OF True] assms Pair IsSpeech show ?thesis
        by (auto simp: tracking_ok_def)
    next
      case False
      from is_speech_not_true [OF False] assms Pair IsSpeech show ?thesis
        by (auto simp: tracking_ok_def)
    qed
  next
    case ShouldStop
    with Pair assms show ?thesis
      by (auto simp: tracking_ok_def should_stop_def Let_def split: option.splits)
  qed
qed

lemma tracking_ok_run:
  "tracking_ok t v \<Longrightarrow> sorted (map fst ops) \<Longrightarrow> \<forall>x\<in>set ops. t \<le> fst x \<Longrightarrow>
   \<exists>t'. tracking_ok t' (vad_run ops v)"
proof (induction ops arbitrary: t v)
  case Nil
  then show ?case by auto
next
  case (Cons x xs)
  from Cons.prems have "tracking_ok (fst x) (vad_step x v)"
    by (intro tracking_ok_step) auto
  moreover from Cons.prems have "sorted (map fst xs)" "\<forall>y\<in>set xs. fst x \<le> fst y"
    by auto
  ultimately show ?case using Cons.IH by simp
qed

text \<open>
  Claim C7. In every detector state reached from the constructor by calls of \<^verbatim>\<open>load\<close>,
  \<^verbatim>\<open>reset\<close>, \<^verbatim>\<open>is_speech\<close> and \<^verbatim>\<open>should_stop\<close> whose clock readings do not
  decrease: if speech was detected then the last speech is not before its onset; if no
  speech was detected then \<^verbatim>\<open>should_stop\<close> is false at any time; and a block under the
  threshold leaves \<open>speech_detected\<close> as it was.
\<close>

theorem vad_timing_invariant:
  assumes "sorted (map fst ops)"
  shows "let v = vad_run ops (SileroVAD_init thr sil msd sr) in
           (speech_detected v \<longrightarrow>
              (\<exists>s. speech_start_time v = Some s \<and> last_speech_time v \<ge> s)) \<and>
           (\<not> speech_detected v \<longrightarrow> (\<forall>now. \<not> fst (should_stop now v))) \<and>
           (\<forall>now audio. fst (is_speech now audio v) = Inr False \<longrightarrow>
              speech_detected (snd (is_speech now audio v)) = speech_detected v)"
proof -
  define v where "v = vad_run ops (SileroVAD_init thr sil msd sr)"
  define t0 where "t0 = (if ops = [] then 0 else fst (hd ops))"
  have "tracking_ok t0 (SileroVAD_init thr sil msd sr)"
    by (simp add: tracking_ok_def SileroVAD_init_def)
  moreover have "\<forall>x\<in>set ops. t0 \<le> fst x"
    using assms by (cases ops) (auto simp: t0_def)
  ultimately obtain t' where "tracking_ok t' v"
    using tracking_ok_run [OF _ assms] unfolding v_def by blast
  then have a: "speech_detected v \<longrightarrow>
              (\<exists>s. speech_start_time v = Some s \<and> last_speech_time v \<ge> s)"
    by (auto simp: tracking_ok_def)
  have b: "\<not> speech_detected v \<longrightarrow> (\<forall>now. \<not> fst (should_stop now v))"
    by (simp add: should_stop_def)
  have c: "\<forall>now audio. fst (is_speech now audio v) = Inr False \<longrightarrow>
              speech_detected (snd (is_speech now audio v)) = speech_detected v"
    using is_speech_not_true by auto
  from a b c show ?thesis unfolding v_def [symmetric] by (simp add: Let_def)
qed

lemma not_loaded_raises:
  "session v = None \<Longrightarrow>
   process_chunk audio v = (Inl VAD_model_not_loaded, v) \<and>
   is_speech now audio v = (Inl VAD_model_not_loaded, v)"
  by (simp add: process_chunk_def is_speech_def)

lemma never_loaded_session:
  "never_loaded ops \<Longrightarrow> session v = None \<Longrightarrow> session (vad_run ops v) = None"
proof (induction ops arbitrary: v)
  case Nil
  then show ?case by simp
next
  case (Cons x xs)
  obtain now op where x: "x = (now, op)" by (cases x)
  from Cons.prems x have "session (vad_step x v) = None"
    by (cases op) (simp_all add: never_loaded_def reset_def Let_def not_loaded_raises should_stop_def
         split: option.splits)
  with Cons show ?case by (simp add: never_loaded_def)
qed

theorem vad_timing_invariant_witness:
  "sorted (map fst [(0, Load (Some sess0)), (0, Reset), (0, IsSpeech [1000]),
                    (0.5, IsSpeech [1000]), (1.0::real, IsSpeech [0])]) \<and>
   (let v = vad_run [(0, Load (Some sess0)), (0, Reset), (0, IsSpeech [1000]),
                     (0.5, IsSpeech [1000]), (1.0, IsSpeech [0])]
              (SileroVAD_init 0.5 2.0 0.3 16000)
    in speech_detected v \<and> speech_start_time v = Some 0 \<and> last_speech_time v = 0.5 \<and>
       (\<exists>s. speech_start_time v = Some s \<and> last_speech_time v \<ge> s))"
proof -
  define ops where "ops = [(0, Load (Some sess0)), (0, Reset), (0, IsSpeech [1000]),
                    (0.5, IsSpeech [1000]), (1.0::real, IsSpeech [0])]"
  define v where "v = vad_run ops (SileroVAD_init 0.5 2.0 0.3 16000)"
  have s: "sorted (map fst ops)" by (simp add: ops_def)
  have h: "speech_detected v \<and> speech_start_time v = Some 0 \<and> last_speech_time v = 0.5"
    unfolding v_def ops_def by (simp add: vad_eval)
  from vad_timing_invariant [OF s, where thr = "0.5" and sil = "2.0" and msd = "0.3" and sr = 16000] h
  have "\<exists>s. speech_start_time v = Some s \<and> last_speech_time v \<ge> s"
    unfolding v_def [symmetric] by (simp add: Let_def)
  with s h show ?thesis unfolding v_def [symmetric] ops_def [symmetric] by (simp add: Let_def)
qed

text \<open>
  Claim C10. As long as \<^verbatim>\<open>load()\<close> has not been called, \<^verbatim>\<open>process_chunk\<close> raises
  "VAD model not loaded" for every block, and \<^verbatim>\<open>is_speech\<close> raises the same error; both
  leave the whole detector, the speech tracking included, as it was.
\<close>

theorem unloaded_vad_raises:
  assumes "never_loaded ops"
  shows "let v = vad_run ops (SileroVAD_init thr sil msd sr) in
           process_chunk audio v = (Inl VAD_model_not_loaded, v) \<and>
           is_speech now audio v = (Inl VAD_model_not_loaded, v)"
proof -
  have "session (vad_run ops (SileroVAD_init thr sil msd sr)) = None"
    using assms by (intro never_loaded_session) (simp_all add: SileroVAD_init_def)
  then show ?thesis by (simp add: Let_def not_loaded_raises)
qed

theorem unloaded_vad_raises_witness:
  "never_loaded [(0, Reset), (1, ShouldStop), (2, IsSpeech [1000])] \<and>
   (let v = vad_run [(0, Reset), (1, ShouldStop), (2, IsSpeech [1000])]
              (SileroVAD_init 0.5 2.0 0.3 16000)
    in process_chunk [1000, 2000] v = (Inl VAD_model_not_loaded, v) \<and>
       is_speech 3 [1000, 2000] v = (Inl VAD_model_not_loaded, v))"
proof -
  have n: "never_loaded [(0, Reset), (1, ShouldStop), (2, IsSpeech [1000])]"
    by (simp add: never_loaded_def)
  from unloaded_vad_raises [OF n, where thr = "0.5" and sil = "2.0" and msd = "0.3" and sr = 16000
      and audio = "[1000, 2000]" and now = 3] n
  show ?thesis by simp
qed


subsection \<open>The WAV container and the capture\<close>

lemma length_le_bytes [simp]: "length (le_bytes k n) = k"
  by (induction k arbitrary: n) auto

lemma le_nat_le_bytes: "n < 256 ^ k \<Longrightarrow> le_nat (le_bytes k n) = n"
proof (induction k arbitrary: n)
  case 0
  then show ?case by simp
next
  case (Suc k)
  have "n div 256 < 256 ^ k" using Suc.prems by (simp add: less_mult_imp_div_less mult.commute)
  then have "le_nat (le_bytes k (n div 256)) = n div 256" by (rule Suc.IH)
  moreover have "unat (of_nat (n mod 256) :: byte) = n mod 256"
    by (simp add: unat_of_nat)
  ultimately show ?case by simp
qed

lemma length_tobytes [simp]: "length (tobytes xs) = 2 * length xs"
  by (induction xs) (auto simp: tobytes_def)

lemma ids_length [simp]:
  "length RIFF = 4" "length WAVE = 4" "length fmt_id = 4" "length data_id = 4"
  by (simp_all add: RIFF_def WAVE_def fmt_id_def data_id_def)

lemma data_not_fmt: "data_id \<noteq> fmt_id"
  by (simp add: data_id_def fmt_id_def)

lemma S4_id:
  "pack_item (S4 WAVE) = Inr WAVE" "pack_item (S4 fmt_id) = Inr fmt_id"
  "pack_item (S4 data_id) = Inr data_id"
  by (simp_all add: WAVE_def fmt_id_def data_id_def)

lemma write_header_mono16:
  assumes "0 < rate" "2 * rate < 2 ^ 32" "36 + n < 2 ^ 32"
  shows "write_header 1 2 (int rate) (int n) =
           Inr (RIFF @ le_bytes 4 (36 + n) @ WAVE @ fmt_id @ le_bytes 4 16 @
                le_bytes 2 1 @ le_bytes 2 1 @ le_bytes 4 rate @ le_bytes 4 (rate * 2) @
                le_bytes 2 2 @ le_bytes 2 16 @ data_id @ le_bytes 4 n)"
proof -
  have n: "nat (36 + int n) = 36 + n" "nat (int rate * 2) = rate * 2"
    by (simp_all add: nat_add_distrib nat_mult_distrib)
  have b: "36 + int n < 4294967296" "int rate < 4294967296" "int rate * 2 < 4294967296"
    "int n < 4294967296"
    using assms by simp_all
  have p1: "pack_item (L (36 + int n)) = Inr (le_bytes 4 (36 + n))"
    using b(1) n(1) by simp
  have p2: "pack_item (L (int rate)) = Inr (le_bytes 4 rate)"
    using b(2) by simp
  have p3: "pack_item (L (int rate * 2)) = Inr (le_bytes 4 (rate * 2))"
    using b(3) n(2) by simp
  have p4: "pack_item (L (int n)) = Inr (le_bytes 4 n)"
    using b(4) by simp
  have p5: "pack_item (L 16) = Inr (le_bytes 4 16)" "pack_item (H 1) = Inr (le_bytes 2 1)"
    "pack_item (H 2) = Inr (le_bytes 2 2)" "pack_item (H 16) = Inr (le_bytes 2 16)"
    by simp_all
  show ?thesis
    unfolding write_header_def WAVE_FORMAT_PCM_def struct_pack.simps
    by (simp only: p1 p2 p3 p4 p5 S4_id sum.case append_Nil2 append_assoc
          mult_1 of_nat_1 mult.commute [of 2 "int rate"] mult_1_right
          of_nat_numeral)
       (simp add: p1 p2 p3 p4 p5 S4_id del: pack_item.simps)
qed

lemma wave_write_mono16:
  assumes "0 < rate" "2 * rate < 2 ^ 32" "even (length data)" "36 + length data < 2 ^ 32"
  shows "wave_write 1 2 (int rate) data = Inr (wav_file rate data)"
proof -
  have d: "int (length data) div (1 * 2) * 1 * 2 = int (length data)"
    using assms(3) by presburger
  have h: "write_header 1 2 (int rate) (int (length data)) =
           Inr (RIFF @ le_bytes 4 (36 + length data) @ WAVE @ fmt_id @ le_bytes 4 16 @
                le_bytes 2 1 @ le_bytes 2 1 @ le_bytes 4 rate @ le_bytes 4 (rate * 2) @
                le_bytes 2 2 @ le_bytes 2 16 @ data_id @ le_bytes 4 (length data))"
    using assms by (intro write_header_mono16) auto
  have r: "\<not> int rate \<le> 0" using assms(1) by simp
  show ?thesis
    unfolding wave_write_def Let_def d h using r
    by (simp add: wav_file_def)
qed

lemma le_nat_2 [simp]: "n < 65536 \<Longrightarrow> le_nat (le_bytes 2 n) = n"
  using le_nat_le_bytes [of n 2] by simp

lemma le_nat_4 [simp]: "n < 4294967296 \<Longrightarrow> le_nat (le_bytes 4 n) = n"
  using le_nat_le_bytes [of n 4] by simp

lemma read_fmt_chunk_mono16:
  assumes "rate < 4294967296" "tag = 1" "nch = 1"
  shows "read_fmt_chunk (le_bytes 2 tag @ le_bytes 2 nch @ le_bytes 4 rate @ le_bytes 4 br @
                         le_bytes 2 2 @ le_bytes 2 16) =
         Inr (\<lparr> fmt_nchannels = 1, fmt_sampwidth = 2, fmt_framerate = rate,
                fmt_framesize = 2 \<rparr>, 16)"
  using assms
  by (simp add: read_fmt_chunk_def WAVE_FORMAT_PCM_def WAVE_FORMAT_EXTENSIBLE_def Let_def
        del: le_bytes.simps)

lemma read_chunks_data:
  assumes "n < 4294967296" "8 \<le> remaining"
  shows "read_chunks remaining (data_id @ le_bytes 4 n @ data) (Some f) =
         Inr \<lparr> nchannels = fmt_nchannels f, sampwidth = fmt_sampwidth f,
               framerate = fmt_framerate f, nframes = n div fmt_framesize f \<rparr>"
proof -
  have m: "min 4 remaining = 4" "min 4 (remaining - 4) = 4" using assms(2) by simp_all
  show ?thesis
    by (subst read_chunks.simps)
       (simp add: m assms(1) data_not_fmt Let_def del: le_bytes.simps)
qed

lemma read_chunks_fmt_data:
  assumes "rate < 4294967296" "n < 4294967296" "32 \<le> remaining" "tag = 1" "nch = 1"
  shows "read_chunks remaining
           (fmt_id @ le_bytes 4 16 @
            le_bytes 2 tag @ le_bytes 2 nch @ le_bytes 4 rate @ le_bytes 4 br @
            le_bytes 2 2 @ le_bytes 2 16 @ data_id @ le_bytes 4 n @ data) None =
         Inr \<lparr> nchannels = 1, sampwidth = 2, framerate = rate, nframes = n div 2 \<rparr>"
proof -
  have m: "min 4 remaining = 4" "min 4 (remaining - 4) = 4" "min 16 (remaining - 8) = 16"
    using assms(3) by simp_all
  have r: "\<not> remaining - 8 < 16" "8 \<le> remaining - 8 - 16" using assms(3) by simp_all
  show ?thesis
    by (subst read_chunks.simps)
       (use assms(3) in \<open>simp add: m r assms(1,2) Let_def read_fmt_chunk_mono16 [OF assms(1,4,5)]
          read_chunks_data del: le_bytes.simps\<close>)
qed

lemma wave_read_wav_file:
  assumes "rate < 4294967296" "36 + length data < 4294967296"
  shows "wave_read (wav_file rate data) =
         Inr \<lparr> nchannels = 1, sampwidth = 2, framerate = rate, nframes = length data div 2 \<rparr>"
proof -
  have n: "length data < 4294967296" using assms(2) by simp
  have m: "min 4 (36 + length data) = 4" by simp
  show ?thesis
    unfolding wave_read_def wav_file_def
    by (simp add: assms n m Let_def read_chunks_fmt_data del: le_bytes.simps)
qed

text \<open>
  Claim C9. The WAV bytes that \<^verbatim>\<open>_to_wav\<close> produces for \<open>N\<close> seconds of 16 kHz mono 16-bit
  audio parse back to 1 channel, sample width 2, frame rate 16000 and \<open>N * 16000\<close> frames;
  so do the bytes that \<^verbatim>\<open>stop()\<close> returns for a recording with that buffer. The hypothesis
  on \<open>N\<close> is the range of the 32-bit length fields of the container, which holds for every
  \<open>N\<close> up to 134217, far above \<open>MAX_RECORDING_DURATION\<close>.
\<close>

theorem wav_round_trip:
  assumes "sample_rate a = 16000" "length audio_data = N * 16000"
    and "36 + 2 * (N * 16000) < 2 ^ 32"
  shows "(\<exists>wav. to_wav a audio_data = Inr wav \<and>
            wave_read wav = Inr \<lparr> nchannels = 1, sampwidth = 2, framerate = 16000,
                                  nframes = N * 16000 \<rparr>) \<and>
         (recording a \<and> frames a \<noteq> [] \<and> concat (frames a) = audio_data \<longrightarrow>
            (\<exists>wav. fst (AudioCapture_stop now a) = Inr (Some wav) \<and>
               wave_read wav = Inr \<lparr> nchannels = 1, sampwidth = 2, framerate = 16000,
                                     nframes = N * 16000 \<rparr>))"
proof -
  let ?data = "tobytes audio_data"
  have len: "length ?data = 2 * (N * 16000)" using assms(2) by simp
  have b: "36 + length ?data < 2 ^ 32" using assms(3) len by simp
  have w: "wave_write 1 2 (int 16000) ?data = Inr (wav_file 16000 ?data)"
    by (rule wave_write_mono16) (use b in simp_all)
  have r: "wave_read (wav_file 16000 ?data) =
           Inr \<lparr> nchannels = 1, sampwidth = 2, framerate = 16000, nframes = length ?data div 2 \<rparr>"
    by (rule wave_read_wav_file) (use b in simp_all)
  have t: "\<And>a'. sample_rate a' = 16000 \<Longrightarrow> to_wav a' audio_data = Inr (wav_file 16000 ?data)"
    using w by (simp add: to_wav_def AUDIO_CHANNELS_def)
  have r': "wave_read (wav_file 16000 ?data) =
           Inr \<lparr> nchannels = 1, sampwidth = 2, framerate = 16000, nframes = N * 16000 \<rparr>"
    using r len by simp
  have s: "recording a \<and> frames a \<noteq> [] \<and> concat (frames a) = audio_data \<longrightarrow>
           fst (AudioCapture_stop now a) = Inr (Some (wav_file 16000 ?data))"
    using assms(1) by (auto simp: AudioCapture_stop_def Let_def t split: option.splits)
  from t [OF assms(1)] r' s show ?thesis by blast
qed

theorem wav_round_trip_witness:
  "\<exists>wav. to_wav (AudioCapture_init 16000 None) (replicate 16000 0) = Inr wav \<and>
     wave_read wav = Inr \<lparr> nchannels = 1, sampwidth = 2, framerate = 16000, nframes = 16000 \<rparr>"
proof -
  have 1: "sample_rate (AudioCapture_init 16000 None) = 16000"
    by (simp add: AudioCapture_init_def)
  have 2: "length (replicate 16000 (0::sample)) = 1 * 16000" by simp
  have 3: "36 + 2 * (1 * 16000) < (2::nat) ^ 32" by simp
  from wav_round_trip [OF 1 2 3] show ?thesis by simp
qed

lemma count_list_append: "count_list (xs @ ys) x = count_list xs x + count_list ys x"
  by (induction xs) auto

lemma session_ok_step: "session_ok w \<Longrightarrow> session_ok (world_step s w)"
proof (cases s)
  case (Callback now indata)
  assume "session_ok w"
  with Callback show ?thesis
    by (auto simp: session_ok_def audio_callback_def Let_def is_audio_ready_def
          count_list_append split: if_splits)
next
  case (Run_stop_thread now)
  assume "session_ok w"
  with Run_stop_thread show ?thesis
    by (auto simp: session_ok_def AudioCapture_stop_def Let_def is_audio_ready_def
          count_list_append split: if_splits option.splits sum.splits)
next
  case (Call_stop now)
  assume "session_ok w"
  with Call_stop show ?thesis
    by (auto simp: session_ok_def AudioCapture_stop_def Let_def is_audio_ready_def
          count_list_append split: if_splits option.splits sum.splits)
qed

lemma session_ok_run: "session_ok w \<Longrightarrow> session_ok (world_run steps w)"
  by (induction steps arbitrary: w) (simp_all add: session_ok_step)

lemma session_ok_started: "session_ok (started rate dev t0)"
  by (simp add: session_ok_def started_def AudioCapture_start_def AudioCapture_init_def Let_def)

text \<open>
  Claim C4. In a session, whatever the order of driver callbacks, of the stop threads
  started by the duration check and of other calls of \<^verbatim>\<open>stop()\<close>: the stream is closed
  at most once and at most one buffer is handed over; once the duration check has fired
  and all its stop threads have run, the capture is stopped, holds no stream, and the
  stream was closed exactly once; and a callback of a recording capture whose elapsed
  time exceeds \<open>MAX_RECORDING_DURATION\<close> starts a stop thread and appends nothing.
\<close>

theorem duration_guard_stops_once:
  "let w = world_run steps (started rate dev t0) in
     count_list (trace w) InputStream_close \<le> 1 \<and>
     length (filter is_audio_ready (trace w)) \<le> 1 \<and>
     (Thread_stop \<in> set (trace w) \<and> pending_stops w = 0 \<longrightarrow>
        \<not> recording (cap w) \<and> stream (cap w) = None \<and>
        count_list (trace w) InputStream_close = 1) \<and>
     (\<forall>now indata. recording (cap w) \<and> now - start_time (cap w) > MAX_RECORDING_DURATION \<longrightarrow>
        audio_callback now indata (cap w) = (cap w, [Thread_stop]))"
proof -
  define w where "w = world_run steps (started rate dev t0)"
  have ok: "session_ok w"
    unfolding w_def by (rule session_ok_run) (rule session_ok_started)
  have a: "count_list (trace w) InputStream_close \<le> 1"
    using ok by (auto simp: session_ok_def split: if_splits)
  have b: "length (filter is_audio_ready (trace w)) \<le> 1"
    using ok by (auto simp: session_ok_def split: if_splits)
  have c: "Thread_stop \<in> set (trace w) \<and> pending_stops w = 0 \<longrightarrow>
        \<not> recording (cap w) \<and> stream (cap w) = None \<and>
        count_list (trace w) InputStream_close = 1"
    using ok by (auto simp: session_ok_def count_list_0_iff split: if_splits)
  have d: "\<forall>now indata. recording (cap w) \<and> now - start_time (cap w) > MAX_RECORDING_DURATION \<longrightarrow>
        audio_callback now indata (cap w) = (cap w, [Thread_stop])"
    by (simp add: audio_callback_def duration_def)
  from a b c d show ?thesis unfolding w_def [symmetric] by (simp add: Let_def)
qed

lemma to_wav_one_sample:
  "sample_rate a = 16000 \<Longrightarrow> to_wav a [x] = Inr (wav_file 16000 (tobytes [x]))"
  using wave_write_mono16 [of 16000 "tobytes [x]"]
  by (simp add: to_wav_def AUDIO_CHANNELS_def)

theorem duration_guard_stops_once_witness:
  "let w = world_run [Callback 1 [100], Callback 361 [5], Callback 362 [5],
                      Run_stop_thread 363, Run_stop_thread 364] (started 16000 None 0) in
     Thread_stop \<in> set (trace w) \<and> pending_stops w = 0 \<and>
     \<not> recording (cap w) \<and> stream (cap w) = None \<and>
     count_list (trace w) InputStream_close = 1 \<and>
     length (filter is_audio_ready (trace w)) \<le> 1"
proof -
  define w where "w = world_run [Callback 1 [100], Callback 361 [5], Callback 362 [5],
                      Run_stop_thread 363, Run_stop_thread 364] (started 16000 None 0)"
  have h: "Thread_stop \<in> set (trace w) \<and> pending_stops w = 0"
    unfolding w_def
    by (simp add: started_def AudioCapture_start_def AudioCapture_init_def audio_callback_def
          duration_def MAX_RECORDING_DURATION_def AudioCapture_stop_def Let_def
          to_wav_one_sample)
  from duration_guard_stops_once [of "[Callback 1 [100], Callback 361 [5], Callback 362 [5],
                      Run_stop_thread 363, Run_stop_thread 364]" 16000 None 0] h
  show ?thesis unfolding w_def [symmetric] by (simp add: Let_def)
qed


subsection \<open>The controller\<close>

lemma app_setup_cfg0: "app_setup cfg0 (Some sess0) = Inr app0"
  by (simp add: app_setup_def cfg0_def app0_def load_def Let_def)

lemmas app_eval = app0_def start_recording_def stop_recording_def on_dictation_hotkey_def
  set_state_def AudioCapture_start_def AudioCapture_stop_def AudioCapture_init_def Let_def

text \<open>
  Claim C1, as stated, fails: when the stream constructor raises at the trigger in
  \<open>IDLE\<close>, the error leaves the handler with the controller in \<open>RECORDING\<close> and the
  capture's recording flag set.
\<close>

theorem device_failure_counterexample:
  "app_setup cfg0 (Some sess0) = Inr app0 \<and>
   fst (on_dictation_hotkey Constructor_raises 0 app0) = Inl PortAudioError \<and>
   app_state (fst (snd (on_dictation_hotkey Constructor_raises 0 app0))) = RECORDING \<and>
   app_state (fst (snd (on_dictation_hotkey Constructor_raises 0 app0))) \<noteq> IDLE \<and>
   recording (app_audio (fst (snd (on_dictation_hotkey Constructor_raises 0 app0))))"
  by (simp add: app_setup_cfg0) (simp add: app_eval)

text \<open>
  Claim C1, amended. If opening the input device fails at the trigger in \<open>IDLE\<close>, the
  error propagates to the caller; the controller is left in \<open>RECORDING\<close> and the capture
  has its recording flag set and an empty buffer; no start event is emitted and no VAD
  monitor is started; the next trigger takes the stop path and returns the controller to
  \<open>IDLE\<close> with the capture stopped and no stream held.
\<close>

theorem device_failure_leaves_recording:
  assumes "dev \<noteq> Opens" "app_state app = IDLE" "\<not> recording (app_audio app)"
  shows "let r = on_dictation_hotkey dev now app; app' = fst (snd r);
             r2 = on_dictation_hotkey dev2 now2 app'
         in fst r = Inl PortAudioError \<and>
            app_state app' = RECORDING \<and>
            recording (app_audio app') \<and> frames (app_audio app') = [] \<and>
            vad_active app' = vad_active app \<and>
            Thread_vad_monitor \<notin> set (snd (snd r)) \<and>
            Emit hotkey_dictation_start \<notin> set (snd (snd r)) \<and>
            fst r2 = Inr () \<and> app_state (fst (snd r2)) = IDLE \<and>
            \<not> recording (app_audio (fst (snd r2))) \<and> stream (app_audio (fst (snd r2))) = None \<and>
            \<not> vad_active (fst (snd r2))"
  using assms by (cases dev) (auto simp: app_eval split: option.splits)

theorem device_failure_leaves_recording_witness:
  "Start_raises \<noteq> Opens \<and> app_state app0 = IDLE \<and> \<not> recording (app_audio app0) \<and>
   (let r = on_dictation_hotkey Start_raises 0 app0; app' = fst (snd r);
        r2 = on_dictation_hotkey Opens 1 app'
    in fst r = Inl PortAudioError \<and> app_state app' = RECORDING \<and>
       recording (app_audio app') \<and> app_state (fst (snd r2)) = IDLE)"
proof -
  have h: "Start_raises \<noteq> Opens" "app_state app0 = IDLE" "\<not> recording (app_audio app0)"
    by (simp_all add: app0_def AudioCapture_init_def)
  from device_failure_leaves_recording [OF h, of 0 Opens 1] h
  show ?thesis by (simp add: Let_def)
qed

text \<open>
  Stopping with an empty buffer through \<^verbatim>\<open>_stop_recording\<close> (the trigger): \<^verbatim>\<open>stop()\<close>
  returns None, the controller passes through \<open>PROCESSING\<close> straight back to \<open>IDLE\<close>,
  and neither \<^verbatim>\<open>audio.ready\<close> is emitted nor a transcription thread started; the effects
  are exactly the two state changes, the stop event and the closing of the stream.
\<close>

lemma stop_recording_empty_capture:
  assumes "frames (app_audio app) = []"
  shows "let r = stop_recording now app; app' = fst (snd r) in
           fst (AudioCapture_stop now (app_audio app)) = Inr None \<and>
           fst r = Inr () \<and> app_state app' = IDLE \<and>
           \<not> recording (app_audio app') \<and>
           snd (snd r) =
             [Emit (state_change (app_state app) PROCESSING), Emit hotkey_dictation_stop] @
             (if recording (app_audio app) \<and> stream (app_audio app) \<noteq> None
              then [InputStream_stop, InputStream_close] else []) @
             [Emit (state_change PROCESSING IDLE)] \<and>
           filter is_audio_ready (snd (snd r)) = [] \<and>
           (\<forall>w d. Thread_stt_pipeline w d \<notin> set (snd (snd r))) \<and>
           (app_state app = RECORDING \<longrightarrow> on_dictation_hotkey dev now app = r)"
  using assms
  by (auto simp: app_eval is_audio_ready_def split: option.splits)

lemma stop_recording_empty_capture_example:
  "let app = fst (snd (on_dictation_hotkey Opens 0 app0)) in
     frames (app_audio app) = [] \<and> app_state app = RECORDING \<and>
     fst (on_dictation_hotkey Opens 1 app) = Inr () \<and>
     app_state (fst (snd (on_dictation_hotkey Opens 1 app))) = IDLE \<and>
     snd (snd (on_dictation_hotkey Opens 1 app)) =
       [Emit (state_change RECORDING PROCESSING), Emit hotkey_dictation_stop,
        InputStream_stop, InputStream_close, Emit (state_change PROCESSING IDLE)]"
proof -
  define app where "app = fst (snd (on_dictation_hotkey Opens 0 app0))"
  have h: "frames (app_audio app) = []"
    and s: "app_state app = RECORDING"
    and t: "recording (app_audio app) \<and> stream (app_audio app) \<noteq> None"
    unfolding app_def by (simp_all add: app_eval)
  from stop_recording_empty_capture [OF h, of 1 Opens] h s t
  show ?thesis unfolding app_def [symmetric] by (simp add: Let_def)
qed

text \<open>
  Claim C3. Stopping a session with no block captured returns None, returns the
  controller to \<open>IDLE\<close> and hands nothing downstream. The code does so on the trigger
  path (above), and on no path is \<^verbatim>\<open>audio.ready\<close> emitted for an empty buffer; but the stop
  thread of the duration check calls \<^verbatim>\<open>AudioCapture.stop\<close> directly and nothing tells the
  controller. In the session below the first driver callback comes 361 s after the start:
  the check fires with an empty buffer, its thread stops the capture, \<^verbatim>\<open>stop()\<close> returns
  None, no \<^verbatim>\<open>audio.ready\<close> and no transcription thread appear, and the controller is
  still in \<open>RECORDING\<close>.
\<close>

theorem guard_stop_empty_capture:
  "guard_stopped_empty =
     app_step (Guard_stop 362)
       (app_run [Trigger Opens 0, Driver_callback 361 [5]] (app0, [])) \<and>
   frames (app_audio (fst (app_run [Trigger Opens 0, Driver_callback 361 [5]] (app0, [])))) = [] \<and>
   fst (AudioCapture_stop 362
         (app_audio (fst (app_run [Trigger Opens 0, Driver_callback 361 [5]] (app0, []))))) =
     Inr None \<and>
   frames (app_audio (fst guard_stopped_empty)) = [] \<and>
   \<not> recording (app_audio (fst guard_stopped_empty)) \<and>
   stream (app_audio (fst guard_stopped_empty)) = None \<and>
   app_state (fst guard_stopped_empty) = RECORDING \<and>
   app_state (fst guard_stopped_empty) \<noteq> IDLE \<and>
   snd guard_stopped_empty =
     [Emit (state_change IDLE RECORDING), InputStream_open 16000, InputStream_start,
      Emit hotkey_dictation_start, Thread_vad_monitor, Thread_stop,
      InputStream_stop, InputStream_close]"
  by (simp add: guard_stopped_empty_def app_eval audio_callback_def duration_def
        MAX_RECORDING_DURATION_def)

lemma process_loop_same_inputs:
  "same_inputs v1 v2 \<Longrightarrow>
   fst (process_loop sess audio prob v1) = fst (process_loop sess audio prob v2)"
proof (induction sess audio prob v1 arbitrary: v2 rule: process_loop.induct)
  case (1 sess audio prob v)
  show ?case
  proof (cases "audio = []")
    case True
    then show ?thesis by (simp add: process_loop_Nil)
  next
    case False
    note ne = this
    show ?thesis
    proof (cases "use_state_input v")
      case True
      let ?out = "run_state sess (pad_chunk (take VAD_CHUNK_SAMPLES audio)) (v_state v)
                    (vad_sample_rate v)"
      have eq: "v_state v2 = v_state v" "vad_sample_rate v2 = vad_sample_rate v"
        "use_state_input v2"
        using "1.prems" True by (simp_all add: same_inputs_def)
      have "same_inputs (v\<lparr>v_state := snd ?out\<rparr>) (v2\<lparr>v_state := snd ?out\<rparr>)"
        using "1.prems" by (simp add: same_inputs_def)
      from "1.IH"(1) [OF ne refl refl True refl this]
      show ?thesis
        using ne True eq
        by (subst (1 2) process_loop.simps) (simp add: Let_def)
    next
      case False
      have eq: "v_h v2 = v_h v" "v_c v2 = v_c v" "vad_sample_rate v2 = vad_sample_rate v"
        "\<not> use_state_input v2"
        using "1.prems" False by (simp_all add: same_inputs_def)
      show ?thesis
      proof (cases "v_h v")
        case None
        with ne False eq show ?thesis
          by (subst (1 2) process_loop.simps) (simp add: Let_def)
      next
        case (Some h)
        note h = this
        show ?thesis
        proof (cases "v_c v")
          case None
          with ne False eq h show ?thesis
            by (subst (1 2) process_loop.simps) (simp add: Let_def)
        next
          case (Some c)
          let ?out = "run_legacy sess (pad_chunk (take VAD_CHUNK_SAMPLES audio)) h c
                        (vad_sample_rate v)"
          have "same_inputs (v\<lparr>v_h := Some (fst (snd ?out)), v_c := Some (snd (snd ?out))\<rparr>)
                  (v2\<lparr>v_h := Some (fst (snd ?out)), v_c := Some (snd (snd ?out))\<rparr>)"
            using "1.prems" False by (simp add: same_inputs_def)
          from "1.IH"(2) [OF ne refl refl False h Some refl this]
          show ?thesis
            using ne False eq h Some
            by (subst (1 2) process_loop.simps) (simp add: Let_def)
        qed
      qed
    qed
  qed
qed

lemma reset_same_inputs:
  "use_state_input v1 = use_state_input v2 \<Longrightarrow> vad_sample_rate v1 = vad_sample_rate v2 \<Longrightarrow>
   same_inputs (reset v1) (reset v2)"
  by (simp add: same_inputs_def reset_def Let_def)

lemma process_chunk_after_reset:
  assumes "session v1 = session v2" "use_state_input v1 = use_state_input v2"
    "vad_sample_rate v1 = vad_sample_rate v2"
  shows "fst (process_chunk block (reset v1)) = fst (process_chunk block (reset v2))"
proof -
  have s: "session (reset v1) = session v2" "session (reset v2) = session v2"
    using assms(1) by (simp_all add: reset_def Let_def)
  show ?thesis
  proof (cases "session v2")
    case None
    then show ?thesis unfolding process_chunk_def s by simp
  next
    case (Some sess)
    have "fst (process_loop sess (map (\<lambda>s. real_of_int (sint s) / 32768) block) 0 (reset v1)) =
          fst (process_loop sess (map (\<lambda>s. real_of_int (sint s) / 32768) block) 0 (reset v2))"
      by (rule process_loop_same_inputs) (rule reset_same_inputs [OF assms(2,3)])
    then show ?thesis unfolding process_chunk_def s Some by (simp add: Let_def)
  qed
qed

lemma start_recording_vad: "app_vad (fst (snd (start_recording dev now app))) = reset (app_vad app)"
  by (simp add: start_recording_def set_state_def Let_def split: sum.splits)

text \<open>
  Claim C6. Every start of a session (the trigger in \<open>IDLE\<close> runs \<^verbatim>\<open>_start_recording\<close>)
  leaves the detector reset: no speech detected, no onset, last speech time 0, and zeros
  in the hidden-state tensors that the loaded format reads; hence the probability of a
  first block is the same from any two detectors with the same model, format and rate,
  whatever state the earlier sessions left.
\<close>

theorem session_start_resets_vad:
  "let v = app_vad (fst (snd (start_recording dev now app))) in
     \<not> speech_detected v \<and> speech_start_time v = None \<and> last_speech_time v = 0 \<and>
     (if use_state_input v then v_state v = zeros (2 * 1 * 128)
      else v_h v = Some (zeros (2 * 1 * 64)) \<and> v_c v = Some (zeros (2 * 1 * 64))) \<and>
     (\<forall>app2 dev2 now2 block.
        session (app_vad app2) = session (app_vad app) \<and>
        use_state_input (app_vad app2) = use_state_input (app_vad app) \<and>
        vad_sample_rate (app_vad app2) = vad_sample_rate (app_vad app) \<longrightarrow>
        fst (process_chunk block (app_vad (fst (snd (start_recording dev2 now2 app2))))) =
        fst (process_chunk block v)) \<and>
     (app_state app = IDLE \<longrightarrow>
        on_dictation_hotkey dev now app = start_recording dev now app)"
proof -
  have a: "\<not> speech_detected (reset (app_vad app)) \<and>
           speech_start_time (reset (app_vad app)) = None \<and>
           last_speech_time (reset (app_vad app)) = 0 \<and>
           (if use_state_input (reset (app_vad app))
            then v_state (reset (app_vad app)) = zeros (2 * 1 * 128)
            else v_h (reset (app_vad app)) = Some (zeros (2 * 1 * 64)) \<and>
                 v_c (reset (app_vad app)) = Some (zeros (2 * 1 * 64)))"
    by (simp add: reset_def Let_def)
  have b: "\<forall>(app2::LinuxWhispr) (dev2::device_outcome) (now2::real) block.
        session (app_vad app2) = session (app_vad app) \<and>
        use_state_input (app_vad app2) = use_state_input (app_vad app) \<and>
        vad_sample_rate (app_vad app2) = vad_sample_rate (app_vad app) \<longrightarrow>
        fst (process_chunk block (reset (app_vad app2))) =
        fst (process_chunk block (reset (app_vad app)))"
  proof (intro allI impI)
    fix app2 :: LinuxWhispr and dev2 :: device_outcome and now2 :: real and block :: "sample list"
    assume h: "session (app_vad app2) = session (app_vad app) \<and>
        use_state_input (app_vad app2) = use_state_input (app_vad app) \<and>
        vad_sample_rate (app_vad app2) = vad_sample_rate (app_vad app)"
    show "fst (process_chunk block (reset (app_vad app2))) =
        fst (process_chunk block (reset (app_vad app)))"
      using h by (intro process_chunk_after_reset) simp_all
  qed
  have c: "app_state app = IDLE \<longrightarrow>
        on_dictation_hotkey dev now app = start_recording dev now app"
    by (simp add: on_dictation_hotkey_def)
  show ?thesis unfolding Let_def start_recording_vad using a b c by (intro conjI; blast)
qed

theorem session_start_resets_vad_witness:
  "session (app_vad app0) = session (app_vad app_dirty) \<and>
   use_state_input (app_vad app0) = use_state_input (app_vad app_dirty) \<and>
   vad_sample_rate (app_vad app0) = vad_sample_rate (app_vad app_dirty) \<and>
   v_state (app_vad app_dirty) = [1, 2, 3] \<and>
   use_state_input (app_vad (fst (snd (start_recording Opens 5 app_dirty)))) \<and>
   v_state (app_vad (fst (snd (start_recording Opens 5 app_dirty)))) = zeros (2 * 1 * 128) \<and>
   \<not> speech_detected (app_vad (fst (snd (start_recording Opens 5 app_dirty)))) \<and>
   fst (process_chunk [1000] (app_vad (fst (snd (start_recording Opens 0 app0))))) =
   fst (process_chunk [1000] (app_vad (fst (snd (start_recording Opens 5 app_dirty)))))"
proof -
  note t = session_start_resets_vad [of Opens 5 app_dirty, unfolded Let_def]
  have h: "session (app_vad app0) = session (app_vad app_dirty) \<and>
     use_state_input (app_vad app0) = use_state_input (app_vad app_dirty) \<and>
     vad_sample_rate (app_vad app0) = vad_sample_rate (app_vad app_dirty)"
    by (simp add: app_dirty_def)
  have d: "v_state (app_vad app_dirty) = [1, 2, 3]"
    by (simp add: app_dirty_def)
  have u: "use_state_input (app_vad (fst (snd (start_recording Opens 5 app_dirty))))"
    by (simp add: start_recording_vad app_dirty_def app0_def load_def reset_def sess0_def
          Let_def SileroVAD_init_def)
  have 1: "\<not> speech_detected (app_vad (fst (snd (start_recording Opens 5 app_dirty))))"
    using t by blast
  have 2: "v_state (app_vad (fst (snd (start_recording Opens 5 app_dirty)))) = zeros (2 * 1 * 128)"
    using t [THEN conjunct2, THEN conjunct2, THEN conjunct2, THEN conjunct1] u
    by (simp only: if_True)
  have 3: "fst (process_chunk [1000] (app_vad (fst (snd (start_recording Opens 0 app0))))) =
     fst (process_chunk [1000] (app_vad (fst (snd (start_recording Opens 5 app_dirty)))))"
    using t [THEN conjunct2, THEN conjunct2, THEN conjunct2, THEN conjunct2, THEN conjunct1,
             rule_format, of app0 "[1000]" Opens 0] h
    by blast
  from h d u 1 2 3 show ?thesis by blast
qed

lemma app_setup_cfg44: "app_setup cfg44 (Some sess_rate) = Inr app44"
  by (simp add: app_setup_def cfg44_def app44_def load_def Let_def)

text \<open>
  What \<^verbatim>\<open>setup()\<close> does with the configured rate: the capture takes it, the detector is
  built with the default rate \<open>AUDIO_SAMPLE_RATE\<close> whatever it is, and the two are never
  compared: for any configured rate \<^verbatim>\<open>setup()\<close> succeeds with the same detector, and the
  start of a session fails only if the device does.
\<close>

lemma setup_rate_not_compared:
  assumes "app_setup cfg fetched = Inr app"
  shows "sample_rate (app_audio app) = cfg_sample_rate cfg \<and>
         vad_sample_rate (app_vad app) = AUDIO_SAMPLE_RATE \<and>
         (\<forall>r. \<exists>app'. app_setup (cfg\<lparr>cfg_sample_rate := r\<rparr>) fetched = Inr app' \<and>
                 app_vad app' = app_vad app \<and> app_state app' = app_state app \<and>
                 sample_rate (app_audio app') = r) \<and>
         (\<forall>dev now. fst (start_recording dev now app) =
                      (if dev = Opens then Inr () else Inl PortAudioError))"
proof (cases fetched)
  case None
  with assms show ?thesis by (simp add: app_setup_def load_def Let_def)
next
  case (Some sess)
  have a: "app = \<lparr> app_state = IDLE,
                   app_audio = AudioCapture_init (cfg_sample_rate cfg) (cfg_device cfg),
                   app_vad = snd (load (Some sess)
                     (SileroVAD_init (cfg_silence_threshold cfg) (cfg_silence_duration cfg)
                        VAD_MIN_SPEECH_DURATION AUDIO_SAMPLE_RATE)),
                   vad_active = False \<rparr>"
    using assms Some by (simp add: app_setup_def load_def Let_def)
  have 1: "sample_rate (app_audio app) = cfg_sample_rate cfg"
    by (simp add: a AudioCapture_init_def)
  have 2: "vad_sample_rate (app_vad app) = AUDIO_SAMPLE_RATE"
    by (simp add: a load_def reset_def Let_def SileroVAD_init_def)
  have 3: "\<forall>r. \<exists>app'. app_setup (cfg\<lparr>cfg_sample_rate := r\<rparr>) fetched = Inr app' \<and>
                 app_vad app' = app_vad app \<and> app_state app' = app_state app \<and>
                 sample_rate (app_audio app') = r"
    by (simp add: a Some app_setup_def load_def Let_def AudioCapture_init_def)
  have 4: "\<forall>dev now. fst (start_recording dev now app) =
                      (if dev = Opens then Inr () else Inl PortAudioError)"
  proof (intro allI)
    fix dev now
    show "fst (start_recording dev now app) =
                      (if dev = Opens then Inr () else Inl PortAudioError)"
      by (cases dev) (simp_all add: a app_eval)
  qed
  from 1 2 3 4 show ?thesis by blast
qed

text \<open>
  The rate that the scoring function is handed is the detector's own: for a block of one
  analysis window in the \<^verbatim>\<open>state\<close> format, \<^verbatim>\<open>process_chunk\<close> returns what the model gives
  for the padded window, the hidden state and \<open>vad_sample_rate\<close>.
\<close>

lemma process_chunk_passes_own_rate:
  assumes "session v = Some sess" "use_state_input v" "block \<noteq> []"
    "length block \<le> VAD_CHUNK_SAMPLES"
  shows "fst (process_chunk block v) =
         Inr (fst (run_state sess
                     (pad_chunk (map (\<lambda>s. real_of_int (sint s) / 32768) block))
                     (v_state v) (vad_sample_rate v)))"
  using assms by (simp add: process_chunk_def process_loop_single)

text \<open>
  Claim C8. A mismatch between the capture rate and the detector's rate is to be
  surfaced. The code does not: with 44100 Hz configured, \<^verbatim>\<open>setup()\<close> returns a capture at
  44100 Hz and a detector at 16000 Hz; the session starts with the effects of an ordinary
  session; the 44.1 kHz block that the capture appends is scored with the rate 16000
  handed to the model (\<open>sess_rate\<close> answers 0.9 only then); and the pass of the monitor
  returns normally with no effect. Nothing raises and nothing is emitted about the rates.
\<close>

theorem rate_mismatch_silent:
  "app_setup cfg44 (Some sess_rate) = Inr app44 \<and>
   cfg_sample_rate cfg44 = 44100 \<and>
   sample_rate (app_audio app44) = 44100 \<and>
   vad_sample_rate (app_vad app44) = 16000 \<and>
   fst (on_dictation_hotkey Opens 0 app44) = Inr () \<and>
   snd (snd (on_dictation_hotkey Opens 0 app44)) =
     [Emit (state_change IDLE RECORDING), InputStream_open 44100, InputStream_start,
      Emit hotkey_dictation_start, Thread_vad_monitor] \<and>
   sample_rate (app_audio app44_recording) = 44100 \<and>
   vad_sample_rate (app_vad app44_recording) = 16000 \<and>
   frames (app_audio app44_recording) = [1000] # [] \<and>
   fst (process_chunk [1000] (app_vad app44_recording)) = Inr 0.9 \<and>
   fst (vad_monitor_pass 0.2 0.2 0.2 app44_recording) = Inr True \<and>
   snd (snd (vad_monitor_pass 0.2 0.2 0.2 app44_recording)) = []"
  by (simp add: app_setup_cfg44)
     (simp add: app44_recording_def app44_def cfg44_def app_eval audio_callback_def
        duration_def MAX_RECORDING_DURATION_def vad_monitor_pass_def vad_eval sess_rate_def
        AUDIO_SAMPLE_RATE_def VAD_MIN_SPEECH_DURATION_def)

lemma open_streams_append: "open_streams (xs @ ys) = open_streams xs + open_streams ys"
  by (simp add: open_streams_def count_list_append)

lemma open_streams_Nil [simp]: "open_streams [] = 0"
  by (simp add: open_streams_def)

lemma open_streams_Cons_Emit [simp]: "open_streams (Emit e # fx) = open_streams fx"
  by (simp add: open_streams_def)

lemma open_streams_Cons_pipeline [simp]:
  "open_streams (Thread_stt_pipeline w d # fx) = open_streams fx"
  by (simp add: open_streams_def)

lemma open_streams_Cons_monitor [simp]:
  "open_streams (Thread_vad_monitor # fx) = open_streams fx"
  by (simp add: open_streams_def)

lemma open_streams_deliver: "open_streams (deliver fx) = open_streams fx"
proof (induction fx rule: deliver.induct)
  case 1
  then show ?case by simp
next
  case (2 wav_bytes dur fx)
  then show ?case by simp
qed (simp_all add: open_streams_def)

lemma start_effect:
  assumes "capture_ok a"
  shows "capture_ok (fst (snd (AudioCapture_start dev now a))) \<and>
         open_streams (snd (snd (AudioCapture_start dev now a))) =
           stream_count (fst (snd (AudioCapture_start dev now a))) - stream_count a"
  using assms
  by (cases dev)
     (auto simp: capture_ok_def stream_count_def AudioCapture_start_def Let_def open_streams_def)

lemma stop_effect:
  assumes "capture_ok a"
  shows "capture_ok (fst (snd (AudioCapture_stop now a))) \<and>
         open_streams (snd (snd (AudioCapture_stop now a))) =
           stream_count (fst (snd (AudioCapture_stop now a))) - stream_count a"
  using assms
  by (auto simp: capture_ok_def stream_count_def AudioCapture_stop_def Let_def open_streams_def
        split: option.splits sum.splits)

lemma callback_effect:
  assumes "capture_ok a"
  shows "capture_ok (fst (audio_callback now indata a)) \<and>
         open_streams (snd (audio_callback now indata a)) =
           stream_count (fst (audio_callback now indata a)) - stream_count a"
  using assms
  by (auto simp: capture_ok_def stream_count_def audio_callback_def open_streams_def)

lemma start_recording_effect:
  assumes "capture_ok (app_audio app)"
  shows "capture_ok (app_audio (fst (snd (start_recording dev now app)))) \<and>
         open_streams (snd (snd (start_recording dev now app))) =
           stream_count (app_audio (fst (snd (start_recording dev now app)))) -
           stream_count (app_audio app)"
proof -
  let ?r = "AudioCapture_start dev now (app_audio app)"
  have a: "app_audio (fst (snd (start_recording dev now app))) = fst (snd ?r)"
    by (simp add: start_recording_def set_state_def Let_def split: sum.splits)
  have b: "open_streams (snd (snd (start_recording dev now app))) = open_streams (snd (snd ?r))"
    by (simp add: start_recording_def set_state_def Let_def open_streams_append
          open_streams_deliver split: sum.splits)
  from start_effect [OF assms, of dev now] a b show ?thesis by simp
qed

lemma stop_recording_effect:
  assumes "capture_ok (app_audio app)"
  shows "capture_ok (app_audio (fst (snd (stop_recording now app)))) \<and>
         open_streams (snd (snd (stop_recording now app))) =
           stream_count (app_audio (fst (snd (stop_recording now app)))) -
           stream_count (app_audio app)"
proof -
  let ?r = "AudioCapture_stop now (app_audio app)"
  have a: "app_audio (fst (snd (stop_recording now app))) = fst (snd ?r)"
    by (simp add: stop_recording_def set_state_def Let_def split: sum.splits option.splits)
  have b: "open_streams (snd (snd (stop_recording now app))) = open_streams (snd (snd ?r))"
    by (simp add: stop_recording_def set_state_def Let_def open_streams_append
          open_streams_deliver split: sum.splits option.splits)
  from stop_effect [OF assms, of now] a b show ?thesis by simp
qed

lemma hotkey_effect:
  assumes "capture_ok (app_audio app)"
  shows "capture_ok (app_audio (fst (snd (on_dictation_hotkey dev now app)))) \<and>
         open_streams (snd (snd (on_dictation_hotkey dev now app))) =
           stream_count (app_audio (fst (snd (on_dictation_hotkey dev now app)))) -
           stream_count (app_audio app)"
  using start_recording_effect [OF assms] stop_recording_effect [OF assms] assms
  by (simp add: on_dictation_hotkey_def)

lemma monitor_effect:
  assumes "capture_ok (app_audio app)"
  shows "capture_ok (app_audio (fst (snd (vad_monitor_pass now now' now'' app)))) \<and>
         open_streams (snd (snd (vad_monitor_pass now now' now'' app))) =
           stream_count (app_audio (fst (snd (vad_monitor_pass now now' now'' app)))) -
           stream_count (app_audio app)"
proof -
  let ?app1 = "app\<lparr>app_vad := snd (is_speech now (last (frames (app_audio app))) (app_vad app))\<rparr>"
  have ok1: "capture_ok (app_audio ?app1)" using assms by simp
  from stop_recording_effect [OF ok1, of now''] assms
  show ?thesis
    by (simp add: vad_monitor_pass_def Let_def split: sum.splits)
qed

lemma app_ok_step: "app_ok s \<Longrightarrow> app_ok (app_step e s)"
proof -
  assume ok: "app_ok s"
  obtain app tr where s: "s = (app, tr)" by (cases s)
  from ok s have c: "capture_ok (app_audio app)"
    and o: "open_streams tr = stream_count (app_audio app)"
    by (simp_all add: app_ok_def)
  show ?thesis
  proof (cases e)
    case (Trigger dev now)
    from hotkey_effect [OF c, of dev now] o show ?thesis
      by (simp add: s Trigger app_ok_def Let_def open_streams_append)
  next
    case (Driver_callback now indata)
    from callback_effect [OF c, of now indata] o show ?thesis
      by (simp add: s Driver_callback app_ok_def Let_def open_streams_append)
  next
    case (Guard_stop now)
    from stop_effect [OF c, of now] o show ?thesis
      by (simp add: s Guard_stop app_ok_def Let_def open_streams_append open_streams_deliver)
  next
    case (Monitor_pass now now' now'')
    from monitor_effect [OF c, of now now' now''] o show ?thesis
      by (simp add: s Monitor_pass app_ok_def Let_def open_streams_append)
  next
    case (Pipeline_end stt)
    from c o show ?thesis
      by (simp add: s Pipeline_end app_ok_def Let_def open_streams_append process_audio_def
            set_state_def split: sum.splits prod.splits)
  qed
qed

lemma app_ok_run: "app_ok s \<Longrightarrow> app_ok (app_run es s)"
  by (induction es arbitrary: s) (simp_all add: app_ok_step)

lemma app_ok_setup: "app_setup cfg fetched = Inr app \<Longrightarrow> app_ok (app, [])"
  by (auto simp: app_setup_def app_ok_def capture_ok_def stream_count_def AudioCapture_init_def
        Let_def split: prod.splits sum.splits)

text \<open>
  Claim C5. A trigger in \<open>IDLE\<close> starts recording; a trigger in \<open>RECORDING\<close> takes the
  stop path and opens no stream; a trigger in \<open>PROCESSING\<close> changes nothing; and after
  any sequence of triggers, driver callbacks, stop threads, monitor passes and ends of
  transcription threads, at most one input stream is open, namely the one the capture
  holds.
\<close>

theorem single_active_session:
  "(app_state app = IDLE \<longrightarrow>
      app_state (fst (snd (on_dictation_hotkey dev now app))) = RECORDING \<and>
      recording (app_audio (fst (snd (on_dictation_hotkey dev now app)))) \<and>
      (dev = Opens \<longrightarrow> fst (on_dictation_hotkey dev now app) = Inr ()) \<and>
      (dev = Opens \<and> \<not> recording (app_audio app) \<longrightarrow>
         stream (app_audio (fst (snd (on_dictation_hotkey dev now app)))) \<noteq> None)) \<and>
   (app_state app = RECORDING \<longrightarrow>
      app_state (fst (snd (on_dictation_hotkey dev now app))) \<in> {PROCESSING, IDLE} \<and>
      \<not> recording (app_audio (fst (snd (on_dictation_hotkey dev now app)))) \<and>
      (\<forall>rate. InputStream_open rate \<notin> set (snd (snd (on_dictation_hotkey dev now app))))) \<and>
   (app_state app = PROCESSING \<longrightarrow> on_dictation_hotkey dev now app = (Inr (), app, [])) \<and>
   (app_setup cfg fetched = Inr app_init \<longrightarrow>
      0 \<le> open_streams (snd (app_run events (app_init, []))) \<and>
      open_streams (snd (app_run events (app_init, []))) \<le> 1 \<and>
      (open_streams (snd (app_run events (app_init, []))) = 1 \<longleftrightarrow>
         stream (app_audio (fst (app_run events (app_init, [])))) \<noteq> None))"
proof -
  have a: "app_state app = IDLE \<longrightarrow>
      app_state (fst (snd (on_dictation_hotkey dev now app))) = RECORDING \<and>
      recording (app_audio (fst (snd (on_dictation_hotkey dev now app)))) \<and>
      (dev = Opens \<longrightarrow> fst (on_dictation_hotkey dev now app) = Inr ()) \<and>
      (dev = Opens \<and> \<not> recording (app_audio app) \<longrightarrow>
         stream (app_audio (fst (snd (on_dictation_hotkey dev now app)))) \<noteq> None)"
    by (cases dev) (auto simp: app_eval)
  have b: "app_state app = RECORDING \<longrightarrow>
      app_state (fst (snd (on_dictation_hotkey dev now app))) \<in> {PROCESSING, IDLE} \<and>
      \<not> recording (app_audio (fst (snd (on_dictation_hotkey dev now app)))) \<and>
      (\<forall>rate. InputStream_open rate \<notin> set (snd (snd (on_dictation_hotkey dev now app))))"
    by (auto simp: app_eval split: option.splits sum.splits)
  have c: "app_state app = PROCESSING \<longrightarrow> on_dictation_hotkey dev now app = (Inr (), app, [])"
    by (simp add: on_dictation_hotkey_def)
  have e: "app_setup cfg fetched = Inr app_init \<longrightarrow>
      0 \<le> open_streams (snd (app_run events (app_init, []))) \<and>
      open_streams (snd (app_run events (app_init, []))) \<le> 1 \<and>
      (open_streams (snd (app_run events (app_init, []))) = 1 \<longleftrightarrow>
         stream (app_audio (fst (app_run events (app_init, [])))) \<noteq> None)"
  proof
    assume "app_setup cfg fetched = Inr app_init"
    then have "app_ok (app_run events (app_init, []))"
      by (intro app_ok_run app_ok_setup)
    then show "0 \<le> open_streams (snd (app_run events (app_init, []))) \<and>
      open_streams (snd (app_run events (app_init, []))) \<le> 1 \<and>
      (open_streams (snd (app_run events (app_init, []))) = 1 \<longleftrightarrow>
         stream (app_audio (fst (app_run events (app_init, [])))) \<noteq> None)"
      by (simp add: app_ok_def stream_count_def)
  qed
  from a b c e show ?thesis by blast
qed

lemmas run_eval = app_eval audio_callback_def duration_def MAX_RECORDING_DURATION_def
  to_wav_one_sample

theorem single_active_session_witness:
  "app_state app0 = IDLE \<and>
   app_state (fst (snd (on_dictation_hotkey Opens 0 app0))) = RECORDING \<and>
   fst (on_dictation_hotkey Opens 0 app0) = Inr () \<and>
   app_state app_recording = RECORDING \<and>
   app_state (fst (snd (on_dictation_hotkey Opens 1 app_recording))) \<in> {PROCESSING, IDLE} \<and>
   \<not> recording (app_audio (fst (snd (on_dictation_hotkey Opens 1 app_recording)))) \<and>
   app_state app_processing = PROCESSING \<and>
   on_dictation_hotkey Opens 2 app_processing = (Inr (), app_processing, []) \<and>
   app_setup cfg0 (Some sess0) = Inr app0 \<and>
   open_streams (snd (app_run [Trigger Opens 0, Driver_callback 0.1 [1000], Trigger Opens 1,
                               Trigger Opens 2, Pipeline_end stt0, Trigger Opens 3]
                        (app0, []))) \<le> 1"
proof -
  have i: "app_state app0 = IDLE" by (simp add: app0_def)
  have r: "app_state app_recording = RECORDING"
    by (simp add: app_recording_def run_eval)
  have p: "app_state app_processing = PROCESSING"
    by (simp add: app_processing_def run_eval)
  note t1 = single_active_session [of app0 Opens 0 cfg0 "Some sess0" app0
      "[Trigger Opens 0, Driver_callback 0.1 [1000], Trigger Opens 1,
        Trigger Opens 2, Pipeline_end stt0, Trigger Opens 3]"]
  note t2 = single_active_session [of app_recording Opens 1 cfg0 "Some sess0" app0 "[]"]
  note t3 = single_active_session [of app_processing Opens 2 cfg0 "Some sess0" app0 "[]"]
  from t1 i have 1: "app_state (fst (snd (on_dictation_hotkey Opens 0 app0))) = RECORDING \<and>
      fst (on_dictation_hotkey Opens 0 app0) = Inr ()"
    by blast
  from t1 app_setup_cfg0 have 4:
    "open_streams (snd (app_run [Trigger Opens 0, Driver_callback 0.1 [1000], Trigger Opens 1,
                               Trigger Opens 2, Pipeline_end stt0, Trigger Opens 3]
                        (app0, []))) \<le> 1"
    by blast
  from t2 r have 2:
    "app_state (fst (snd (on_dictation_hotkey Opens 1 app_recording))) \<in> {PROCESSING, IDLE} \<and>
     \<not> recording (app_audio (fst (snd (on_dictation_hotkey Opens 1 app_recording))))"
    by blast
  from t3 p have 3: "on_dictation_hotkey Opens 2 app_processing = (Inr (), app_processing, [])"
    by blast
  from i r p 1 2 3 4 app_setup_cfg0 show ?thesis by blast
qed

end
